theory Spec2Isabelle
  imports Main "HOL-Library.AList"
begin

section \<open>Values and documents\<close>

text \<open>
  The values a document field or a piece of React state can hold. Only the primitive
  JavaScript values are covered, and of the numbers only \<open>NaN\<close> and the doubles whose
  value is a whole number: \<open>JNum n\<close> is the double of value \<open>n\<close>. Every whole number of
  magnitude up to \<open>2 ^ 53\<close> is such a double; beyond, only every second, fourth, ... one.
\<close>

datatype jsval = JUndefined | JNull | JBool bool | JNum int | JNaN | JStr string

text \<open>Truthiness, as \<open>!x\<close> and \<open>x || y\<close> test it.\<close>

fun js_truthy :: "jsval \<Rightarrow> bool" where
  "js_truthy JUndefined = False"
| "js_truthy JNull = False"
| "js_truthy (JBool b) = b"
| "js_truthy (JNum n) = (n \<noteq> 0)"
| "js_truthy JNaN = False"
| "js_truthy (JStr s) = (s \<noteq> [])"

definition js_or :: "jsval \<Rightarrow> jsval \<Rightarrow> jsval" where
  "js_or a b = (if js_truthy a then a else b)"

text \<open>\<open>a !== b\<close>: strict inequality; \<open>NaN\<close> differs from everything, itself included.\<close>

definition js_strict_neq :: "jsval \<Rightarrow> jsval \<Rightarrow> bool" where
  "js_strict_neq a b = (a \<noteq> b \<or> a = JNaN)"

text \<open>
  \<open>x + 1\<close> on a double of whole value \<open>n\<close>, rounded to the nearest double, ties to the
  even mantissa. Below \<open>2 ^ 53\<close> in magnitude the sum is exact. From there to \<open>2 ^ 54\<close>
  the doubles are the even numbers and \<open>n + 1\<close> lies half way between two of them: the
  result is the one that is a multiple of 4 (so \<open>2 ^ 53 + 1\<close> is \<open>2 ^ 53\<close>). Beyond,
  the doubles are at least 4 apart and the result is \<open>n\<close>.
\<close>

definition double_succ :: "int \<Rightarrow> int" where
  "double_succ n =
     (if - (2 ^ 53) \<le> n \<and> n < 2 ^ 53 then n + 1
      else if \<bar>n\<bar> < 2 ^ 54 then (if n mod 4 = 0 then n else n + 2)
      else n)"

text \<open>\<open>v + 1\<close> for a primitive \<open>v\<close>: numeric addition, or concatenation on a string.\<close>

fun js_plus_one :: "jsval \<Rightarrow> jsval" where
  "js_plus_one JUndefined = JNaN"
| "js_plus_one JNull = JNum 1"
| "js_plus_one (JBool b) = JNum (if b then 2 else 1)"
| "js_plus_one (JNum n) = JNum (double_succ n)"
| "js_plus_one JNaN = JNaN"
| "js_plus_one (JStr s) = JStr (s @ ''1'')"

text \<open>A document is its list of fields; \<open>data_field d k\<close> is \<open>d.data().k\<close>.\<close>

type_synonym doc = "(string \<times> jsval) list"

definition data_field :: "doc \<Rightarrow> string \<Rightarrow> jsval" where
  "data_field d k = (case map_of d k of None \<Rightarrow> JUndefined | Some v \<Rightarrow> v)"

text \<open>
  \<open>setDoc(ref, fields, {merge: m})\<close> of the document store, as a function from the
  document found at \<open>ref\<close> (\<open>None\<close> when there is none) to the document left there:
  with \<open>merge\<close> the given fields are written over the existing document, without it the
  document is replaced by the given fields.
\<close>

definition merge_fields :: "doc \<Rightarrow> doc \<Rightarrow> doc" where
  "merge_fields d flds = fold (\<lambda>(k, v) acc. AList.update k v acc) flds d"

definition setDoc :: "doc option \<Rightarrow> doc \<Rightarrow> bool \<Rightarrow> doc" where
  "setDoc old flds merge =
     (if merge then merge_fields (case old of None \<Rightarrow> [] | Some d \<Rightarrow> d) flds else flds)"

section \<open>Errors, local storage and the environment of a call\<close>

datatype store_op = GetVisitor | GetCount | SetCount | SetVisitor

text \<open>
  What can be thrown: by an access to local storage, by \<open>doc\<close> on a path that is no
  document path, by an operation of the document store.
\<close>

datatype error = StorageError | InvalidArgument | StoreError store_op

text \<open>
  \<open>localStorage\<close>: its items, whether \<open>getItem\<close> and \<open>setItem\<close> throw (storage blocked
  or full), and the list of the writes it has accepted.
\<close>

record local_storage =
  items :: "(string \<times> string) list"
  getItem_throws :: bool
  setItem_throws :: bool
  writes :: "(string \<times> string) list"

text \<open>
  What a call reads from its surroundings: the session flag and the store handle of the
  component, the module's \<open>appId\<close>, the value of
  \<open>Math.random().toString(36).substring(2, 11)\<close>, of \<open>Date.now()\<close>, of the two
  \<open>new Date().toISOString()\<close> and of \<open>navigator.userAgent\<close>, and which operations of
  the document store reject.
\<close>

record env =
  isAuthReady :: bool
  db :: bool
  appId :: string
  random36 :: string
  date_now :: nat
  count_time :: string
  visit_time :: string
  userAgent :: string
  fails :: "store_op \<Rightarrow> bool"

section \<open>getUniqueVisitorId\<close>

text \<open>
  The decimal digits of a whole number, as string concatenation prints \<open>Date.now()\<close>:
  a number of milliseconds that lies far below \<open>2 ^ 53\<close>.
\<close>

definition digit_char :: "nat \<Rightarrow> char" where
  "digit_char d = ''0123456789'' ! d"

fun string_of_nat :: "nat \<Rightarrow> string" where
  "string_of_nat n =
     (if n < 10 then [digit_char n] else string_of_nat (n div 10) @ [digit_char (n mod 10)])"

declare string_of_nat.simps [simp del]

definition visitor_key :: string where
  "visitor_key = ''siraw_unique_visitor_id''"

definition fresh_id :: "env \<Rightarrow> string" where
  "fresh_id e = ''visitor_'' @ random36 e @ ''_'' @ string_of_nat (date_now e)"

definition getItem :: "local_storage \<Rightarrow> string \<Rightarrow> error + string option" where
  "getItem ls k = (if getItem_throws ls then Inl StorageError else Inr (map_of (items ls) k))"

definition setItem :: "local_storage \<Rightarrow> string \<Rightarrow> string \<Rightarrow> error + local_storage" where
  "setItem ls k v =
     (if setItem_throws ls then Inl StorageError
      else Inr (ls\<lparr>items := AList.update k v (items ls), writes := writes ls @ [(k, v)]\<rparr>))"

text \<open>\<open>!visitorId\<close>: no item, or the empty string.\<close>

definition no_item :: "string option \<Rightarrow> bool" where
  "no_item x = (case x of None \<Rightarrow> True | Some s \<Rightarrow> s = [])"

text \<open>
  The result is the identifier with the storage the call leaves, or the exception a
  storage access threw: the function catches nothing.
\<close>

definition getUniqueVisitorId :: "env \<Rightarrow> local_storage \<Rightarrow> error + (string \<times> local_storage)" where
  "getUniqueVisitorId e ls =
     (case getItem ls visitor_key of
        Inl err \<Rightarrow> Inl err
      | Inr visitorId \<Rightarrow>
          if no_item visitorId then
            (case setItem ls visitor_key (fresh_id e) of
               Inl err \<Rightarrow> Inl err
             | Inr ls' \<Rightarrow> Inr (fresh_id e, ls'))
          else Inr (case visitorId of Some s \<Rightarrow> s | None \<Rightarrow> [], ls))"

text \<open>A sequence of calls, one after the other, on the same storage.\<close>

fun call_seq :: "env list \<Rightarrow> local_storage \<Rightarrow> (error + string) list \<times> local_storage" where
  "call_seq [] ls = ([], ls)"
| "call_seq (e # es) ls =
     (case getUniqueVisitorId e ls of
        Inl err \<Rightarrow> (let (rs, ls') = call_seq es ls in (Inl err # rs, ls'))
      | Inr (v, ls1) \<Rightarrow> (let (rs, ls') = call_seq es ls1 in (Inr v # rs, ls')))"

section \<open>Document references\<close>

text \<open>
  \<open>doc(db, path, ...pathSegments)\<close> of the document store's client, which the two
  reference builders call. Each argument is split at its slashes, the empty pieces
  dropped, and the pieces of all arguments in a row are the path of the reference. The
  call throws when the first argument is empty, when an argument holds two slashes in a
  row, and when the number of pieces is odd, which is the path of a collection.
\<close>

fun split_slash :: "string \<Rightarrow> string list" where
  "split_slash [] = [[]]"
| "split_slash (c # cs) =
     (if c = CHR ''/'' then [] # split_slash cs
      else (case split_slash cs of x # xs \<Rightarrow> (c # x) # xs | [] \<Rightarrow> [[c]]))"

definition segments :: "string \<Rightarrow> string list" where
  "segments s = filter (\<lambda>x. x \<noteq> []) (split_slash s)"

fun has_double_slash :: "string \<Rightarrow> bool" where
  "has_double_slash (a # b # cs) = ((a = CHR ''/'' \<and> b = CHR ''/'') \<or> has_double_slash (b # cs))"
| "has_double_slash cs = False"

definition doc :: "string list \<Rightarrow> error + string list" where
  "doc args =
     (case args of
        [] \<Rightarrow> Inl InvalidArgument
      | path # pathSegments \<Rightarrow>
          if path = [] then Inl InvalidArgument
          else if list_ex has_double_slash args then Inl InvalidArgument
          else if even (length (concat (map segments args)))
            then Inr (concat (map segments args))
            else Inl InvalidArgument)"

text \<open>
  The two builders; the handle they test is the one \<open>trackPageView\<close> has tested before
  it calls them.
\<close>

definition getCountDocRef :: "env \<Rightarrow> error + string list" where
  "getCountDocRef e =
     doc [''artifacts'', appId e, ''public'', ''data'', ''viewCounts'', ''profile'']"

definition getVisitorDocRef :: "env \<Rightarrow> string \<Rightarrow> error + string list" where
  "getVisitorDocRef e visitorId =
     doc [''artifacts'', appId e, ''public'', ''data'', ''uniqueVisitors'', visitorId]"

section \<open>trackPageView\<close>

text \<open>
  The browser's local storage, the documents of the shared store by their paths, and the
  trace of what a run called: every call of the document store, in order and by the place
  of the call, and every \<open>console.error\<close>.
\<close>

datatype event =
    GetDoc_visitor string
  | GetDoc_count
  | SetDoc_count doc bool
  | SetDoc_visitor string doc bool
  | Console_error string error

record world =
  storage :: local_storage
  docs :: "(string list \<times> doc) list"
  trace :: "event list"

definition emit :: "event \<Rightarrow> world \<Rightarrow> world" where
  "emit ev w = w\<lparr>trace := trace w @ [ev]\<rparr>"

text \<open>\<open>countSnap.exists() ? countSnap.data().count : 0\<close>\<close>

definition currentCount :: "doc option \<Rightarrow> jsval" where
  "currentCount snap = (case snap of None \<Rightarrow> JNum 0 | Some d \<Rightarrow> data_field d ''count'')"

definition count_fields :: "env \<Rightarrow> doc option \<Rightarrow> doc" where
  "count_fields e snap =
     [(''count'', js_plus_one (currentCount snap)), (''lastUpdate'', JStr (count_time e))]"

definition visitor_fields :: "env \<Rightarrow> doc" where
  "visitor_fields e = [(''firstVisit'', JStr (visit_time e)), (''userAgent'', JStr (userAgent e))]"

text \<open>
  The body of the \<open>try\<close>: \<open>Inr\<close> the world it leaves when it runs to its end, \<open>Inl\<close> the
  error thrown with the world at that point. An operation of the store that rejects
  leaves the store as it was.
\<close>

definition try_body ::
  "env \<Rightarrow> string \<Rightarrow> string list \<Rightarrow> string list \<Rightarrow> world \<Rightarrow> (error \<times> world) + world" where
  "try_body e visitorId visitorsRef countDocRef w =
     (let w1 = emit (GetDoc_visitor visitorId) w in
      if fails e GetVisitor then Inl (StoreError GetVisitor, w1)
      else if map_of (docs w1) visitorsRef \<noteq> None then Inr w1
      else
        let w2 = emit GetDoc_count w1 in
        if fails e GetCount then Inl (StoreError GetCount, w2)
        else
          let countSnap = map_of (docs w2) countDocRef;
              w3 = emit (SetDoc_count (count_fields e countSnap) True) w2 in
          if fails e SetCount then Inl (StoreError SetCount, w3)
          else
            let w4 = w3\<lparr>docs := AList.update countDocRef
                        (setDoc (map_of (docs w3) countDocRef) (count_fields e countSnap) True)
                        (docs w3)\<rparr>;
                w5 = emit (SetDoc_visitor visitorId (visitor_fields e) False) w4 in
            if fails e SetVisitor then Inl (StoreError SetVisitor, w5)
            else Inr (w5\<lparr>docs := AList.update visitorsRef
                        (setDoc (map_of (docs w5) visitorsRef) (visitor_fields e) False)
                        (docs w5)\<rparr>))"

text \<open>
  How the promise of \<open>trackPageView\<close> settles: resolved, or rejected with an error
  nothing caught. The identifier and the two references are obtained before the \<open>try\<close>.
\<close>

datatype outcome = Resolved | Rejected error

definition trackPageView :: "env \<Rightarrow> world \<Rightarrow> outcome \<times> world" where
  "trackPageView e w =
     (if \<not> isAuthReady e \<or> \<not> db e then (Resolved, w)
      else case getUniqueVisitorId e (storage w) of
        Inl err \<Rightarrow> (Rejected err, w)
      | Inr (visitorId, ls) \<Rightarrow>
          (case getVisitorDocRef e visitorId of
             Inl err \<Rightarrow> (Rejected err, w\<lparr>storage := ls\<rparr>)
           | Inr visitorsRef \<Rightarrow>
               (case getCountDocRef e of
                  Inl err \<Rightarrow> (Rejected err, w\<lparr>storage := ls\<rparr>)
                | Inr countDocRef \<Rightarrow>
                    (case try_body e visitorId visitorsRef countDocRef (w\<lparr>storage := ls\<rparr>) of
                       Inr w' \<Rightarrow> (Resolved, w')
                     | Inl (err, w') \<Rightarrow>
                         (Resolved, emit (Console_error ''Error tracking view:'' err) w')))))"

text \<open>
  Runs one after the other on the shared store, each by a client with its own environment
  and its own local storage as it is when the run starts.
\<close>

fun runs :: "(env \<times> local_storage) list \<Rightarrow> world \<Rightarrow> world" where
  "runs [] w = w"
| "runs ((e, ls) # cs) w = runs cs (snd (trackPageView e (w\<lparr>storage := ls\<rparr>)))"

section \<open>The subscription to the counter\<close>

text \<open>
  The state of the component that the listener touches: the displayed count, the pulse
  flag, the time in milliseconds with the pending \<open>setTimeout\<close>s (each by the time at
  which it is due; every one of them runs \<open>setIsPulsing(false)\<close>), and the console.
  The callback is a closure of the render in which the effect subscribed:
  \<open>closure_viewCount\<close> is the \<open>viewCount\<close> of that render, which the callback reads in
  place of the displayed count.
\<close>

record ui =
  viewCount :: jsval
  closure_viewCount :: jsval
  isPulsing :: bool
  clock :: nat
  timeouts :: "nat list"
  console :: "(string \<times> error) list"

definition initial_ui :: ui where
  "initial_ui = \<lparr>viewCount = JNum 0, closure_viewCount = JNum 0, isPulsing = False,
     clock = 0, timeouts = [], console = []\<rparr>"

text \<open>\<open>doc.data().count || 0\<close>\<close>

definition newCount :: "doc \<Rightarrow> jsval" where
  "newCount d = js_or (data_field d ''count'') (JNum 0)"

text \<open>The snapshot callback; the snapshot is \<open>None\<close> when the document does not exist.\<close>

definition on_snapshot :: "doc option \<Rightarrow> ui \<Rightarrow> ui" where
  "on_snapshot snap s =
     (case snap of
        Some d \<Rightarrow>
          (let s1 = (if js_strict_neq (newCount d) (closure_viewCount s)
                        \<and> js_strict_neq (closure_viewCount s) (JNum 0)
                     then s\<lparr>isPulsing := True, timeouts := timeouts s @ [clock s + 500]\<rparr>
                     else s)
           in s1\<lparr>viewCount := newCount d\<rparr>)
      | None \<Rightarrow> s\<lparr>viewCount := JNum 0\<rparr>)"

text \<open>The error callback of the subscription.\<close>

definition on_snapshot_error :: "error \<Rightarrow> ui \<Rightarrow> ui" where
  "on_snapshot_error err s = s\<lparr>console := console s @ [(''Error listening to view count:'', err)]\<rparr>"

text \<open>
  The component renders again and its effect, which depends on \<open>viewCount\<close>, runs: the
  listener is replaced by one that closes over the displayed count.
\<close>

definition resubscribe :: "ui \<Rightarrow> ui" where
  "resubscribe s = s\<lparr>closure_viewCount := viewCount s\<rparr>"

text \<open>Time passes by \<open>d\<close> milliseconds: the timeouts that fall due run and are gone.\<close>

definition advance :: "nat \<Rightarrow> ui \<Rightarrow> ui" where
  "advance d s =
     (let t = clock s + d in
      s\<lparr>clock := t,
        isPulsing := (if filter (\<lambda>x. x \<le> t) (timeouts s) = [] then isPulsing s else False),
        timeouts := filter (\<lambda>x. \<not> x \<le> t) (timeouts s)\<rparr>)"

section \<open>Reading a store and a trace\<close>

text \<open>The counter document, and the visitor record of an identifier, as a run finds them.\<close>

definition countDoc :: "env \<Rightarrow> world \<Rightarrow> doc option" where
  "countDoc e w = (case getCountDocRef e of Inl err \<Rightarrow> None | Inr r \<Rightarrow> map_of (docs w) r)"

definition visitor_record :: "env \<Rightarrow> world \<Rightarrow> string \<Rightarrow> doc option" where
  "visitor_record e w visitorId =
     (case getVisitorDocRef e visitorId of Inl err \<Rightarrow> None | Inr r \<Rightarrow> map_of (docs w) r)"

definition is_count_write :: "event \<Rightarrow> bool" where
  "is_count_write ev = (case ev of SetDoc_count _ _ \<Rightarrow> True | _ \<Rightarrow> False)"

definition is_write :: "event \<Rightarrow> bool" where
  "is_write ev =
     (case ev of SetDoc_count _ _ \<Rightarrow> True | SetDoc_visitor _ _ _ \<Rightarrow> True | _ \<Rightarrow> False)"

text \<open>What a run from \<open>w\<close> to \<open>w'\<close> added to the trace.\<close>

definition new_events :: "world \<Rightarrow> world \<Rightarrow> event list" where
  "new_events w w' = drop (length (trace w)) (trace w')"

text \<open>
  The paths of the visitor records: the documents below the collection
  \<open>uniqueVisitors\<close> of the application.
\<close>

definition visitors_collection :: "env \<Rightarrow> string list" where
  "visitors_collection e =
     concat (map segments [''artifacts'', appId e, ''public'', ''data'', ''uniqueVisitors''])"

definition is_visitor_path :: "env \<Rightarrow> string list \<Rightarrow> bool" where
  "is_visitor_path e p = (take (length (visitors_collection e)) p = visitors_collection e)"

definition visitor_paths :: "env \<Rightarrow> world \<Rightarrow> string list set" where
  "visitor_paths e w = Set.filter (is_visitor_path e) (fst ` set (docs w))"

text \<open>
  The counter (0 when its document is absent, as the protocol reads it) is the number of
  visitor records.
\<close>

definition consistent :: "env \<Rightarrow> world \<Rightarrow> bool" where
  "consistent e w = (currentCount (countDoc e w) = JNum (int (card (visitor_paths e w))))"

section \<open>Example inputs\<close>

definition ex_storage :: local_storage where
  "ex_storage = \<lparr>items = [], getItem_throws = False, setItem_throws = False, writes = []\<rparr>"

definition ex_env :: env where
  "ex_env = \<lparr>isAuthReady = True, db = True, appId = ''default-app-id'',
     random36 = ''k3j9x0a1b'', date_now = 1700000000000,
     count_time = ''2024-01-01T00:00:00.000Z'', visit_time = ''2024-01-01T00:00:00.001Z'',
     userAgent = ''Mozilla/5.0'', fails = (\<lambda>_. False)\<rparr>"

definition ex_id :: string where
  "ex_id = ''visitor_k3j9x0a1b_1700000000000''"

definition ex_count_path :: "string list" where
  "ex_count_path = [''artifacts'', ''default-app-id'', ''public'', ''data'', ''viewCounts'', ''profile'']"

definition ex_visitor_path :: "string \<Rightarrow> string list" where
  "ex_visitor_path v = [''artifacts'', ''default-app-id'', ''public'', ''data'', ''uniqueVisitors'', v]"

definition ex_world :: world where
  "ex_world = \<lparr>storage = ex_storage, docs = [], trace = []\<rparr>"

text \<open>A store in which the visitor \<open>v1\<close> is recorded and the counter stands at 7.\<close>

definition ex_known_world :: world where
  "ex_known_world =
     \<lparr>storage = \<lparr>items = [(''siraw_unique_visitor_id'', ''v1'')], getItem_throws = False,
                   setItem_throws = False, writes = []\<rparr>,
      docs =
        [(ex_count_path, [(''count'', JNum 7)]),
         (ex_visitor_path ''v1'',
            [(''firstVisit'', JStr ''2023-12-31T00:00:00.000Z''),
             (''userAgent'', JStr ''Mozilla/5.0'')])],
      trace = []\<rparr>"

text \<open>A store whose counter document carries a field the protocol does not know.\<close>

definition ex_owned_world :: world where
  "ex_owned_world =
     \<lparr>storage = ex_storage,
      docs = [(ex_count_path, [(''owner'', JStr ''siraw''), (''count'', JNum 7)])],
      trace = []\<rparr>"

text \<open>Environments in which only the write of the visitor record, or only a read, rejects.\<close>

definition ex_env_visitor_write_fails :: env where
  "ex_env_visitor_write_fails = ex_env\<lparr>fails := (\<lambda>op. op = SetVisitor)\<rparr>"

definition ex_env_read_fails :: env where
  "ex_env_read_fails = ex_env\<lparr>fails := (\<lambda>op. op = GetVisitor)\<rparr>"

text \<open>A second visitor, and the storage of the first visitor once it holds its identifier.\<close>

definition ex_env2 :: env where
  "ex_env2 = ex_env\<lparr>random36 := ''zzzzzzzzz''\<rparr>"

definition ex_id2 :: string where
  "ex_id2 = ''visitor_zzzzzzzzz_1700000000000''"

definition ex_storage_used :: local_storage where
  "ex_storage_used = ex_storage\<lparr>items := [(''siraw_unique_visitor_id'', ex_id)]\<rparr>"

text \<open>Storages whose accesses throw, and one that holds an identifier with a slash.\<close>

definition ex_storage_blocked :: local_storage where
  "ex_storage_blocked = ex_storage\<lparr>getItem_throws := True, setItem_throws := True\<rparr>"

definition ex_storage_full :: local_storage where
  "ex_storage_full = ex_storage\<lparr>setItem_throws := True\<rparr>"

definition ex_storage_slash :: local_storage where
  "ex_storage_slash = ex_storage\<lparr>items := [(''siraw_unique_visitor_id'', ''a/b'')]\<rparr>"

text \<open>
  The component showing the count 5 with a listener that has subscribed since, and with
  nothing pending.
\<close>

definition ex_ui :: ui where
  "ex_ui = initial_ui\<lparr>viewCount := JNum 5, closure_viewCount := JNum 5\<rparr>"

section \<open>Facts about document references\<close>

lemma update_absent: "map_of al k = None \<Longrightarrow> AList.update k v al = al @ [(k, v)]"
  by (induction al) (auto split: if_splits)

lemma split_slash_plain: "CHR ''/'' \<notin> set s \<Longrightarrow> split_slash s = [s]"
  by (induction s) auto

lemma segments_plain: "CHR ''/'' \<notin> set s \<Longrightarrow> s \<noteq> [] \<Longrightarrow> segments s = [s]"
  by (simp add: segments_def split_slash_plain)

lemma no_double_slash_plain: "CHR ''/'' \<notin> set s \<Longrightarrow> \<not> has_double_slash s"
  by (induction s rule: has_double_slash.induct) auto

lemma segments_literals:
  "segments ''artifacts'' = [''artifacts'']" "segments ''public'' = [''public'']"
  "segments ''data'' = [''data'']" "segments ''viewCounts'' = [''viewCounts'']"
  "segments ''profile'' = [''profile'']" "segments ''uniqueVisitors'' = [''uniqueVisitors'']"
  by (simp_all add: segments_plain)

lemma count_ref_path:
  "getCountDocRef e = Inr c \<Longrightarrow>
   c = ''artifacts'' # segments (appId e) @ [''public'', ''data'', ''viewCounts'', ''profile'']"
  by (auto simp: getCountDocRef_def doc_def segments_literals split: if_splits)

lemma visitor_ref_path:
  "getVisitorDocRef e v = Inr p \<Longrightarrow>
   p = ''artifacts'' # segments (appId e) @ [''public'', ''data'', ''uniqueVisitors''] @ segments v"
  by (auto simp: getVisitorDocRef_def doc_def segments_literals split: if_splits)

lemma visitors_collection_path:
  "visitors_collection e =
   ''artifacts'' # segments (appId e) @ [''public'', ''data'', ''uniqueVisitors'']"
  by (simp add: visitors_collection_def segments_literals)

lemma refs_differ:
  assumes "getCountDocRef e = Inr c" and "getVisitorDocRef e' v = Inr p" and "appId e' = appId e"
  shows "p \<noteq> c"
  using count_ref_path [OF assms(1)] visitor_ref_path [OF assms(2)] assms(3) by simp

lemma visitor_ref_is_visitor_path: "getVisitorDocRef e v = Inr p \<Longrightarrow> is_visitor_path e p"
  using visitor_ref_path [of e v p] by (simp add: is_visitor_path_def visitors_collection_path)

lemma count_ref_not_visitor_path: "getCountDocRef e = Inr c \<Longrightarrow> \<not> is_visitor_path e c"
  using count_ref_path [of e c] by (simp add: is_visitor_path_def visitors_collection_path)

lemma refs_of_appId:
  "appId e' = appId e \<Longrightarrow> getCountDocRef e' = getCountDocRef e"
  "appId e' = appId e \<Longrightarrow> getVisitorDocRef e' v = getVisitorDocRef e v"
  "appId e' = appId e \<Longrightarrow> is_visitor_path e' = is_visitor_path e"
  by (simp_all add: getCountDocRef_def getVisitorDocRef_def is_visitor_path_def
      visitors_collection_def fun_eq_iff)

lemma plain_count_ref:
  "CHR ''/'' \<notin> set (appId e) \<Longrightarrow> appId e \<noteq> [] \<Longrightarrow>
   getCountDocRef e = Inr [''artifacts'', appId e, ''public'', ''data'', ''viewCounts'', ''profile'']"
  by (simp add: getCountDocRef_def doc_def segments_literals segments_plain no_double_slash_plain)

lemma plain_visitor_ref:
  "CHR ''/'' \<notin> set (appId e) \<Longrightarrow> appId e \<noteq> [] \<Longrightarrow> CHR ''/'' \<notin> set v \<Longrightarrow> v \<noteq> [] \<Longrightarrow>
   getVisitorDocRef e v = Inr [''artifacts'', appId e, ''public'', ''data'', ''uniqueVisitors'', v]"
  by (simp add: getVisitorDocRef_def doc_def segments_literals segments_plain no_double_slash_plain)

section \<open>The paths of a run\<close>

text \<open>
  What a run returns on each of its paths: session not ready, storage throwing, a
  reference that cannot be built, each of the four store operations rejecting, the
  visitor known, the visitor new.
\<close>

lemma run_not_ready: "\<not> isAuthReady e \<or> \<not> db e \<Longrightarrow> trackPageView e w = (Resolved, w)"
  by (auto simp: trackPageView_def)

lemma run_storage_throws:
  "isAuthReady e \<Longrightarrow> db e \<Longrightarrow> getUniqueVisitorId e (storage w) = Inl err \<Longrightarrow>
   trackPageView e w = (Rejected err, w)"
  by (simp add: trackPageView_def)

lemma run_visitor_ref_throws:
  "isAuthReady e \<Longrightarrow> db e \<Longrightarrow> getUniqueVisitorId e (storage w) = Inr (vid, ls) \<Longrightarrow>
   getVisitorDocRef e vid = Inl err \<Longrightarrow>
   trackPageView e w = (Rejected err, w\<lparr>storage := ls\<rparr>)"
  by (simp add: trackPageView_def)

lemma run_count_ref_throws:
  "isAuthReady e \<Longrightarrow> db e \<Longrightarrow> getUniqueVisitorId e (storage w) = Inr (vid, ls) \<Longrightarrow>
   getVisitorDocRef e vid = Inr vr \<Longrightarrow> getCountDocRef e = Inl err \<Longrightarrow>
   trackPageView e w = (Rejected err, w\<lparr>storage := ls\<rparr>)"
  by (simp add: trackPageView_def)

lemma run_get_visitor_fails:
  assumes "isAuthReady e" "db e" "getUniqueVisitorId e (storage w) = Inr (vid, ls)"
    and "getVisitorDocRef e vid = Inr vr" "getCountDocRef e = Inr cr"
    and "fails e GetVisitor"
  shows "trackPageView e w =
    (Resolved, w\<lparr>storage := ls,
       trace := trace w @ [GetDoc_visitor vid,
         Console_error ''Error tracking view:'' (StoreError GetVisitor)]\<rparr>)"
  using assms by (simp add: trackPageView_def try_body_def emit_def Let_def)

lemma run_known_visitor:
  assumes "isAuthReady e" "db e" "getUniqueVisitorId e (storage w) = Inr (vid, ls)"
    and "getVisitorDocRef e vid = Inr vr" "getCountDocRef e = Inr cr"
    and "\<not> fails e GetVisitor" "map_of (docs w) vr \<noteq> None"
  shows "trackPageView e w = (Resolved, w\<lparr>storage := ls, trace := trace w @ [GetDoc_visitor vid]\<rparr>)"
  using assms by (auto simp: trackPageView_def try_body_def emit_def Let_def)

lemma run_get_count_fails:
  assumes "isAuthReady e" "db e" "getUniqueVisitorId e (storage w) = Inr (vid, ls)"
    and "getVisitorDocRef e vid = Inr vr" "getCountDocRef e = Inr cr"
    and "\<not> fails e GetVisitor" "map_of (docs w) vr = None" "fails e GetCount"
  shows "trackPageView e w =
    (Resolved, w\<lparr>storage := ls,
       trace := trace w @ [GetDoc_visitor vid, GetDoc_count,
         Console_error ''Error tracking view:'' (StoreError GetCount)]\<rparr>)"
  using assms by (simp add: trackPageView_def try_body_def emit_def Let_def)

lemma run_set_count_fails:
  assumes "isAuthReady e" "db e" "getUniqueVisitorId e (storage w) = Inr (vid, ls)"
    and "getVisitorDocRef e vid = Inr vr" "getCountDocRef e = Inr cr"
    and "\<not> fails e GetVisitor" "map_of (docs w) vr = None" "\<not> fails e GetCount"
    and "fails e SetCount"
  shows "trackPageView e w =
    (Resolved, w\<lparr>storage := ls,
       trace := trace w @ [GetDoc_visitor vid, GetDoc_count,
         SetDoc_count (count_fields e (map_of (docs w) cr)) True,
         Console_error ''Error tracking view:'' (StoreError SetCount)]\<rparr>)"
  using assms by (simp add: trackPageView_def try_body_def emit_def Let_def)

lemma run_set_visitor_fails:
  assumes "isAuthReady e" "db e" "getUniqueVisitorId e (storage w) = Inr (vid, ls)"
    and "getVisitorDocRef e vid = Inr vr" "getCountDocRef e = Inr cr"
    and "\<not> fails e GetVisitor" "map_of (docs w) vr = None" "\<not> fails e GetCount"
    and "\<not> fails e SetCount" "fails e SetVisitor"
  shows "trackPageView e w =
    (Resolved, w\<lparr>storage := ls,
       docs := AList.update cr
         (setDoc (map_of (docs w) cr) (count_fields e (map_of (docs w) cr)) True) (docs w),
       trace := trace w @ [GetDoc_visitor vid, GetDoc_count,
         SetDoc_count (count_fields e (map_of (docs w) cr)) True,
         SetDoc_visitor vid (visitor_fields e) False,
         Console_error ''Error tracking view:'' (StoreError SetVisitor)]\<rparr>)"
  using assms by (simp add: trackPageView_def try_body_def emit_def Let_def)

lemma run_new_visitor:
  assumes "isAuthReady e" "db e" "getUniqueVisitorId e (storage w) = Inr (vid, ls)"
    and "getVisitorDocRef e vid = Inr vr" "getCountDocRef e = Inr cr"
    and "\<not> fails e GetVisitor" "map_of (docs w) vr = None" "\<not> fails e GetCount"
    and "\<not> fails e SetCount" "\<not> fails e SetVisitor"
  shows "trackPageView e w =
    (Resolved, w\<lparr>storage := ls,
       docs := AList.update vr (visitor_fields e)
         (AList.update cr
           (setDoc (map_of (docs w) cr) (count_fields e (map_of (docs w) cr)) True) (docs w)),
       trace := trace w @ [GetDoc_visitor vid, GetDoc_count,
         SetDoc_count (count_fields e (map_of (docs w) cr)) True,
         SetDoc_visitor vid (visitor_fields e) False]\<rparr>)"
  using assms by (simp add: trackPageView_def try_body_def emit_def Let_def setDoc_def)

text \<open>Every run takes one of six shapes.\<close>

lemma run_cases:
  obtains (idle) "trackPageView e w = (Resolved, w)"
  | (rejected) err ls where "trackPageView e w = (Rejected err, w\<lparr>storage := ls\<rparr>)"
  | (read_only) ls evs where
      "trackPageView e w = (Resolved, w\<lparr>storage := ls, trace := trace w @ evs\<rparr>)"
      "filter is_write evs = []"
  | (count_write_failed) ls vid cr where
      "getCountDocRef e = Inr cr"
      "trackPageView e w =
        (Resolved, w\<lparr>storage := ls,
           trace := trace w @ [GetDoc_visitor vid, GetDoc_count,
             SetDoc_count (count_fields e (map_of (docs w) cr)) True,
             Console_error ''Error tracking view:'' (StoreError SetCount)]\<rparr>)"
  | (visitor_write_failed) ls vid cr where
      "fails e SetVisitor" "getCountDocRef e = Inr cr"
      "trackPageView e w =
        (Resolved, w\<lparr>storage := ls,
           docs := AList.update cr
             (setDoc (map_of (docs w) cr) (count_fields e (map_of (docs w) cr)) True) (docs w),
           trace := trace w @ [GetDoc_visitor vid, GetDoc_count,
             SetDoc_count (count_fields e (map_of (docs w) cr)) True,
             SetDoc_visitor vid (visitor_fields e) False,
             Console_error ''Error tracking view:'' (StoreError SetVisitor)]\<rparr>)"
  | (counted) ls vid vr cr where
      "getVisitorDocRef e vid = Inr vr" "getCountDocRef e = Inr cr" "map_of (docs w) vr = None"
      "trackPageView e w =
        (Resolved, w\<lparr>storage := ls,
           docs := AList.update vr (visitor_fields e)
             (AList.update cr
               (setDoc (map_of (docs w) cr) (count_fields e (map_of (docs w) cr)) True) (docs w)),
           trace := trace w @ [GetDoc_visitor vid, GetDoc_count,
             SetDoc_count (count_fields e (map_of (docs w) cr)) True,
             SetDoc_visitor vid (visitor_fields e) False]\<rparr>)"
proof (cases "isAuthReady e \<and> db e")
  case False
  then have "trackPageView e w = (Resolved, w)"
    by (intro run_not_ready) auto
  then show ?thesis by (rule idle)
next
  case ready: True
  show ?thesis
  proof (cases "getUniqueVisitorId e (storage w)")
    case (Inl err)
    with ready have "trackPageView e w = (Rejected err, w\<lparr>storage := storage w\<rparr>)"
      by (simp add: run_storage_throws)
    then show ?thesis by (rule rejected)
  next
    case (Inr p)
    then obtain vid ls where call: "getUniqueVisitorId e (storage w) = Inr (vid, ls)"
      by (cases p) auto
    show ?thesis
    proof (cases "getVisitorDocRef e vid")
      case (Inl err)
      with ready call show ?thesis
        by (intro rejected [OF run_visitor_ref_throws]) auto
    next
      case vref: (Inr vr)
      show ?thesis
      proof (cases "getCountDocRef e")
        case (Inl err)
        with ready call vref show ?thesis
          by (intro rejected [OF run_count_ref_throws]) auto
      next
        case cref: (Inr cr)
        consider (a) "fails e GetVisitor"
          | (b) "\<not> fails e GetVisitor" "map_of (docs w) vr \<noteq> None"
          | (c) "\<not> fails e GetVisitor" "map_of (docs w) vr = None" "fails e GetCount"
          | (d) "\<not> fails e GetVisitor" "map_of (docs w) vr = None" "\<not> fails e GetCount"
                "fails e SetCount"
          | (f) "\<not> fails e GetVisitor" "map_of (docs w) vr = None" "\<not> fails e GetCount"
                "\<not> fails e SetCount" "fails e SetVisitor"
          | (g) "\<not> fails e GetVisitor" "map_of (docs w) vr = None" "\<not> fails e GetCount"
                "\<not> fails e SetCount" "\<not> fails e SetVisitor"
          by blast
        then show ?thesis
        proof cases
          case a
          with ready call vref cref show ?thesis
            by (intro read_only [OF run_get_visitor_fails]) (auto simp: is_write_def)
        next
          case b
          with ready call vref cref show ?thesis
            by (intro read_only [OF run_known_visitor]) (auto simp: is_write_def)
        next
          case c
          with ready call vref cref show ?thesis
            by (intro read_only [OF run_get_count_fails]) (auto simp: is_write_def)
        next
          case d
          with ready call vref cref show ?thesis
            by (intro count_write_failed [OF _ run_set_count_fails]) auto
        next
          case f
          with ready call vref cref show ?thesis
            by (intro visitor_write_failed [OF _ _ run_set_visitor_fails]) auto
        next
          case g
          with ready call vref cref show ?thesis
            by (intro counted [OF _ _ _ run_new_visitor]) auto
        qed
      qed
    qed
  qed
qed

lemma merged_count:
  "currentCount (Some (setDoc old (count_fields e snap) True)) = js_plus_one (currentCount snap)"
  by (simp add: currentCount_def setDoc_def merge_fields_def count_fields_def data_field_def
      update_conv')

lemma merged_other_field:
  "k \<noteq> ''count'' \<Longrightarrow> k \<noteq> ''lastUpdate'' \<Longrightarrow>
   map_of (setDoc (Some d) (count_fields e snap) True) k = map_of d k"
  by (simp add: setDoc_def merge_fields_def count_fields_def update_conv')

lemma count_fields_absent:
  "count_fields e None = [(''count'', JNum 1), (''lastUpdate'', JStr (count_time e))]"
  by (simp add: count_fields_def currentCount_def double_succ_def)

lemma safe_plus_one: "- (2 ^ 53) \<le> n \<Longrightarrow> n < 2 ^ 53 \<Longrightarrow> js_plus_one (JNum n) = JNum (n + 1)"
  by (simp add: double_succ_def)

lemma plus_one_at_limit: "js_plus_one (JNum (2 ^ 53)) = JNum (2 ^ 53)"
  by (simp add: double_succ_def)

section \<open>The view counter protocol\<close>

lemma fresh_id_ex_env: "fresh_id ex_env = ex_id"
  by (simp add: fresh_id_def ex_env_def ex_id_def string_of_nat.simps digit_char_def)

lemma observed_count: "getCountDocRef e = Inr cr \<Longrightarrow> countDoc e w = map_of (docs w) cr"
  by (simp add: countDoc_def)

lemma observed_visitor:
  "getVisitorDocRef e vid = Inr vr \<Longrightarrow> visitor_record e w vid = map_of (docs w) vr"
  by (simp add: visitor_record_def)

lemma record_has_ref:
  "visitor_record e w vid \<noteq> None \<Longrightarrow> \<exists>vr. getVisitorDocRef e vid = Inr vr \<and> map_of (docs w) vr \<noteq> None"
  by (auto simp: visitor_record_def split: sum.splits)

lemma no_record_filter: "map_of al k = None \<Longrightarrow> filter (\<lambda>p. fst p = k) al = []"
  by (induction al) (auto split: if_splits)

text \<open>The example identifiers, references and environments.\<close>

lemma ex_appId:
  "appId ex_env = ''default-app-id''" "appId ex_env2 = ''default-app-id''"
  "appId ex_env_visitor_write_fails = ''default-app-id''"
  "appId ex_env_read_fails = ''default-app-id''"
  by (simp_all add: ex_env_def ex_env2_def ex_env_visitor_write_fails_def ex_env_read_fails_def)

lemma ex_plain_ids:
  "CHR ''/'' \<notin> set ex_id" "ex_id \<noteq> []" "CHR ''/'' \<notin> set ex_id2" "ex_id2 \<noteq> []"
  by (simp_all add: ex_id_def ex_id2_def)

lemma ex_count_ref:
  "getCountDocRef ex_env = Inr ex_count_path" "getCountDocRef ex_env2 = Inr ex_count_path"
  "getCountDocRef ex_env_visitor_write_fails = Inr ex_count_path"
  "getCountDocRef ex_env_read_fails = Inr ex_count_path"
  by (simp_all add: plain_count_ref ex_appId ex_count_path_def)

lemma ex_visitor_ref:
  "getVisitorDocRef ex_env ex_id = Inr (ex_visitor_path ex_id)"
  "getVisitorDocRef ex_env_visitor_write_fails ex_id = Inr (ex_visitor_path ex_id)"
  "getVisitorDocRef ex_env_read_fails ex_id = Inr (ex_visitor_path ex_id)"
  "getVisitorDocRef ex_env2 ex_id2 = Inr (ex_visitor_path ex_id2)"
  "getVisitorDocRef ex_env ''v1'' = Inr (ex_visitor_path ''v1'')"
  by (simp_all add: plain_visitor_ref ex_appId ex_plain_ids ex_visitor_path_def)

lemma ex_paths_differ: "ex_visitor_path v \<noteq> ex_count_path" "ex_count_path \<noteq> ex_visitor_path v"
  by (simp_all add: ex_visitor_path_def ex_count_path_def)

lemma ex_env_fields:
  "isAuthReady ex_env" "db ex_env" "\<not> fails ex_env op"
  "count_time ex_env = ''2024-01-01T00:00:00.000Z''"
  "visit_time ex_env = ''2024-01-01T00:00:00.001Z''" "userAgent ex_env = ''Mozilla/5.0''"
  by (simp_all add: ex_env_def)

lemma ex_id_call: "getUniqueVisitorId ex_env (storage ex_world) =
   Inr (ex_id, ex_storage\<lparr>items := [(visitor_key, ex_id)], writes := [(visitor_key, ex_id)]\<rparr>)"
  by (simp add: getUniqueVisitorId_def getItem_def setItem_def no_item_def ex_world_def
      ex_storage_def fresh_id_ex_env)

text \<open>
  Claim C1, amended. A run whose session is ready, whose two document references are
  built and whose store operations all succeed, for a visitor identifier without a visitor
  record and with no counter document, leaves the counter document with \<open>count = 1\<close>
  and the \<open>lastUpdate\<close> of the run, adds the visitor record of that identifier (first
  visit and user agent), which is then the only document at its path, and performs
  exactly one write of the counter.
\<close>

theorem fresh_visitor_counted:
  assumes "isAuthReady e" and "db e"
    and "getUniqueVisitorId e (storage w) = Inr (vid, ls)"
    and "getVisitorDocRef e vid = Inr vr" and "getCountDocRef e = Inr cr"
    and "visitor_record e w vid = None" and "countDoc e w = None"
    and "\<forall>op. \<not> fails e op"
  shows "fst (trackPageView e w) = Resolved
    \<and> countDoc e (snd (trackPageView e w)) =
        Some [(''count'', JNum 1), (''lastUpdate'', JStr (count_time e))]
    \<and> visitor_record e (snd (trackPageView e w)) vid =
        Some [(''firstVisit'', JStr (visit_time e)), (''userAgent'', JStr (userAgent e))]
    \<and> docs (snd (trackPageView e w)) =
        docs w @
          [(cr, [(''count'', JNum 1), (''lastUpdate'', JStr (count_time e))]),
           (vr, [(''firstVisit'', JStr (visit_time e)), (''userAgent'', JStr (userAgent e))])]
    \<and> length (filter (\<lambda>p. fst p = vr) (docs (snd (trackPageView e w)))) = 1
    \<and> new_events w (snd (trackPageView e w)) =
        [GetDoc_visitor vid, GetDoc_count,
         SetDoc_count [(''count'', JNum 1), (''lastUpdate'', JStr (count_time e))] True,
         SetDoc_visitor vid
           [(''firstVisit'', JStr (visit_time e)), (''userAgent'', JStr (userAgent e))] False]
    \<and> length (filter is_count_write (new_events w (snd (trackPageView e w)))) = 1"
proof -
  have no_v: "map_of (docs w) vr = None" and no_c: "map_of (docs w) cr = None"
    using assms(4-7) by (simp_all add: observed_count observed_visitor)
  have diff: "vr \<noteq> cr"
    using assms(5,4) by (rule refs_differ) simp
  let ?cd = "[(''count'', JNum 1), (''lastUpdate'', JStr (count_time e))]"
  have doc: "setDoc None ?cd True = ?cd"
    by (simp add: setDoc_def merge_fields_def)
  have store: "AList.update vr (visitor_fields e) (AList.update cr ?cd (docs w)) =
      docs w @ [(cr, ?cd), (vr, visitor_fields e)]"
    using no_v no_c diff by (simp add: update_absent)
  have run: "trackPageView e w =
    (Resolved, w\<lparr>storage := ls,
       docs := docs w @ [(cr, ?cd), (vr, visitor_fields e)],
       trace := trace w @ [GetDoc_visitor vid, GetDoc_count, SetDoc_count ?cd True,
         SetDoc_visitor vid (visitor_fields e) False]\<rparr>)"
    using run_new_visitor [OF assms(1-5) _ no_v] assms(8)
    by (simp add: no_c count_fields_absent doc store)
  have after: "map_of (docs w @ [(cr, ?cd), (vr, visitor_fields e)]) cr = Some ?cd"
    "map_of (docs w @ [(cr, ?cd), (vr, visitor_fields e)]) vr = Some (visitor_fields e)"
    using no_v no_c diff by (simp_all add: map_add_def)
  show ?thesis
    using after no_v
    by (simp add: run observed_count [OF assms(5)] observed_visitor [OF assms(4)] visitor_fields_def
        new_events_def is_count_write_def no_record_filter diff diff [symmetric])
qed

theorem fresh_visitor_counted_witness:
  "isAuthReady ex_env \<and> db ex_env
   \<and> getUniqueVisitorId ex_env (storage ex_world) =
       Inr (ex_id, ex_storage\<lparr>items := [(visitor_key, ex_id)], writes := [(visitor_key, ex_id)]\<rparr>)
   \<and> getVisitorDocRef ex_env ex_id = Inr (ex_visitor_path ex_id)
   \<and> getCountDocRef ex_env = Inr ex_count_path
   \<and> visitor_record ex_env ex_world ex_id = None \<and> countDoc ex_env ex_world = None
   \<and> countDoc ex_env (snd (trackPageView ex_env ex_world)) =
       Some [(''count'', JNum 1), (''lastUpdate'', JStr ''2024-01-01T00:00:00.000Z'')]
   \<and> docs (snd (trackPageView ex_env ex_world)) =
       [(ex_count_path, [(''count'', JNum 1), (''lastUpdate'', JStr ''2024-01-01T00:00:00.000Z'')]),
        (ex_visitor_path ex_id,
           [(''firstVisit'', JStr ''2024-01-01T00:00:00.001Z''),
            (''userAgent'', JStr ''Mozilla/5.0'')])]
   \<and> length (filter is_count_write (new_events ex_world (snd (trackPageView ex_env ex_world)))) = 1"
proof -
  have h6: "\<forall>op. \<not> fails ex_env op"
    by (simp add: ex_env_fields)
  have h4: "visitor_record ex_env ex_world ex_id = None" and h5: "countDoc ex_env ex_world = None"
    by (simp_all add: visitor_record_def countDoc_def ex_visitor_ref ex_count_ref ex_world_def)
  have store: "docs ex_world = []"
    by (simp add: ex_world_def)
  from fresh_visitor_counted [OF ex_env_fields(1,2) ex_id_call ex_visitor_ref(1) ex_count_ref(1) h4 h5 h6]
  show ?thesis
    using h4 h5 ex_id_call
    by (simp add: ex_env_fields ex_visitor_ref ex_count_ref store is_count_write_def)
qed

text \<open>The empty store, with a run whose write of the visitor record rejects.\<close>

lemma ex_fail_call: "getUniqueVisitorId ex_env_visitor_write_fails (storage ex_world) =
   Inr (ex_id, ex_storage\<lparr>items := [(visitor_key, ex_id)], writes := [(visitor_key, ex_id)]\<rparr>)"
proof -
  have "fresh_id ex_env_visitor_write_fails = fresh_id ex_env"
    by (simp add: fresh_id_def ex_env_visitor_write_fails_def)
  then show ?thesis
    by (simp add: getUniqueVisitorId_def getItem_def setItem_def no_item_def ex_world_def
      ex_storage_def fresh_id_ex_env)
qed

lemma ex_fail_run: "trackPageView ex_env_visitor_write_fails ex_world =
  (Resolved, ex_world\<lparr>
     storage := ex_storage\<lparr>items := [(visitor_key, ex_id)], writes := [(visitor_key, ex_id)]\<rparr>,
     docs := [(ex_count_path,
               [(''count'', JNum 1), (''lastUpdate'', JStr ''2024-01-01T00:00:00.000Z'')])],
     trace := [GetDoc_visitor ex_id, GetDoc_count,
       SetDoc_count [(''count'', JNum 1), (''lastUpdate'', JStr ''2024-01-01T00:00:00.000Z'')] True,
       SetDoc_visitor ex_id (visitor_fields ex_env) False,
       Console_error ''Error tracking view:'' (StoreError SetVisitor)]\<rparr>)"
proof -
  have "trackPageView ex_env_visitor_write_fails ex_world =
    (Resolved, ex_world\<lparr>
       storage := ex_storage\<lparr>items := [(visitor_key, ex_id)], writes := [(visitor_key, ex_id)]\<rparr>,
       docs := AList.update ex_count_path
         (setDoc (map_of (docs ex_world) ex_count_path)
            (count_fields ex_env_visitor_write_fails (map_of (docs ex_world) ex_count_path)) True)
         (docs ex_world),
       trace := trace ex_world @ [GetDoc_visitor ex_id, GetDoc_count,
         SetDoc_count
           (count_fields ex_env_visitor_write_fails (map_of (docs ex_world) ex_count_path)) True,
         SetDoc_visitor ex_id (visitor_fields ex_env_visitor_write_fails) False,
         Console_error ''Error tracking view:'' (StoreError SetVisitor)]\<rparr>)"
    by (rule run_set_visitor_fails [OF _ _ ex_fail_call ex_visitor_ref(2) ex_count_ref(3)])
      (simp_all add: ex_env_visitor_write_fails_def ex_env_def ex_world_def)
  moreover have "count_fields ex_env_visitor_write_fails (map_of (docs ex_world) ex_count_path) =
      [(''count'', JNum 1), (''lastUpdate'', JStr ''2024-01-01T00:00:00.000Z'')]"
    by (simp add: count_fields_absent ex_world_def ex_env_visitor_write_fails_def ex_env_def)
  moreover have "setDoc (map_of (docs ex_world) ex_count_path)
      [(''count'', JNum 1), (''lastUpdate'', JStr ''2024-01-01T00:00:00.000Z'')] True =
      [(''count'', JNum 1), (''lastUpdate'', JStr ''2024-01-01T00:00:00.000Z'')]"
    by (simp add: setDoc_def merge_fields_def ex_world_def)
  moreover have "visitor_fields ex_env_visitor_write_fails = visitor_fields ex_env"
    by (simp add: visitor_fields_def ex_env_visitor_write_fails_def)
  ultimately show ?thesis
    by (simp add: ex_world_def)
qed

text \<open>
  As stated for every run the claim fails: on the empty store, with no visitor record and
  no counter document, a run whose write of the visitor record rejects leaves the counter
  at 1 and no visitor record.
\<close>

theorem fresh_visitor_counted_counterexample:
  "getUniqueVisitorId ex_env_visitor_write_fails (storage ex_world) =
     Inr (ex_id, ex_storage\<lparr>items := [(visitor_key, ex_id)], writes := [(visitor_key, ex_id)]\<rparr>)
   \<and> visitor_record ex_env_visitor_write_fails ex_world ex_id = None
   \<and> countDoc ex_env_visitor_write_fails ex_world = None
   \<and> countDoc ex_env_visitor_write_fails (snd (trackPageView ex_env_visitor_write_fails ex_world)) =
       Some [(''count'', JNum 1), (''lastUpdate'', JStr ''2024-01-01T00:00:00.000Z'')]
   \<and> visitor_record ex_env_visitor_write_fails
       (snd (trackPageView ex_env_visitor_write_fails ex_world)) ex_id = None"
  by (simp add: ex_fail_call ex_fail_run visitor_record_def countDoc_def ex_visitor_ref ex_count_ref
      ex_paths_differ) (simp add: ex_world_def)

text \<open>
  Claim C2. A run for a visitor identifier that has a visitor record calls no write of
  the store, whatever else happens in it: every document of the store, the counter
  document and the visitor records among them, is after the run what it was before. The
  promise resolves, unless the session is ready and the reference of the counter document
  cannot be built.
\<close>

theorem known_visitor_no_writes:
  assumes "getUniqueVisitorId e (storage w) = Inr (vid, ls)"
    and "visitor_record e w vid \<noteq> None"
  shows "fst (trackPageView e w) =
      (if isAuthReady e \<and> db e
       then (case getCountDocRef e of Inl err \<Rightarrow> Rejected err | Inr cr \<Rightarrow> Resolved)
       else Resolved)
    \<and> docs (snd (trackPageView e w)) = docs w
    \<and> countDoc e (snd (trackPageView e w)) = countDoc e w
    \<and> (\<forall>v. visitor_record e (snd (trackPageView e w)) v = visitor_record e w v)
    \<and> filter is_write (new_events w (snd (trackPageView e w))) = []"
proof -
  from assms(2) obtain vr where vref: "getVisitorDocRef e vid = Inr vr"
    and known: "map_of (docs w) vr \<noteq> None"
    using record_has_ref by blast
  have "fst (trackPageView e w) =
      (if isAuthReady e \<and> db e
       then (case getCountDocRef e of Inl err \<Rightarrow> Rejected err | Inr cr \<Rightarrow> Resolved)
       else Resolved)
    \<and> docs (snd (trackPageView e w)) = docs w
    \<and> filter is_write (new_events w (snd (trackPageView e w))) = []"
  proof (cases "isAuthReady e \<and> db e")
    case False
    then have "trackPageView e w = (Resolved, w)"
      by (intro run_not_ready) auto
    with False show ?thesis
      by (auto simp: new_events_def)
  next
    case ready: True
    show ?thesis
    proof (cases "getCountDocRef e")
      case (Inl err)
      with ready assms(1) vref have "trackPageView e w = (Rejected err, w\<lparr>storage := ls\<rparr>)"
        by (intro run_count_ref_throws) auto
      with ready Inl show ?thesis
        by (simp add: new_events_def)
    next
      case cref: (Inr cr)
      show ?thesis
      proof (cases "fails e GetVisitor")
        case True
        with ready assms(1) vref cref have "trackPageView e w =
          (Resolved, w\<lparr>storage := ls,
             trace := trace w @ [GetDoc_visitor vid,
               Console_error ''Error tracking view:'' (StoreError GetVisitor)]\<rparr>)"
          by (intro run_get_visitor_fails) auto
        with ready cref show ?thesis
          by (simp add: new_events_def is_write_def)
      next
        case False
        with ready assms(1) vref cref known have "trackPageView e w =
          (Resolved, w\<lparr>storage := ls, trace := trace w @ [GetDoc_visitor vid]\<rparr>)"
          by (intro run_known_visitor) auto
        with ready cref show ?thesis
          by (simp add: new_events_def is_write_def)
      qed
    qed
  qed
  moreover from this have "docs (snd (trackPageView e w)) = docs w"
    by simp
  then have "countDoc e (snd (trackPageView e w)) = countDoc e w"
    and "\<forall>v. visitor_record e (snd (trackPageView e w)) v = visitor_record e w v"
    by (simp_all add: countDoc_def visitor_record_def split: sum.split)
  ultimately show ?thesis
    by simp
qed

theorem known_visitor_no_writes_witness:
  "getUniqueVisitorId ex_env (storage ex_known_world) = Inr (''v1'', storage ex_known_world)
   \<and> visitor_record ex_env ex_known_world ''v1'' \<noteq> None
   \<and> fst (trackPageView ex_env ex_known_world) = Resolved
   \<and> countDoc ex_env (snd (trackPageView ex_env ex_known_world)) = Some [(''count'', JNum 7)]
   \<and> docs (snd (trackPageView ex_env ex_known_world)) = docs ex_known_world
   \<and> filter is_write (new_events ex_known_world (snd (trackPageView ex_env ex_known_world))) = []"
proof -
  have h1: "getUniqueVisitorId ex_env (storage ex_known_world) = Inr (''v1'', storage ex_known_world)"
    by (simp add: getUniqueVisitorId_def getItem_def no_item_def ex_known_world_def visitor_key_def)
  have h2: "visitor_record ex_env ex_known_world ''v1'' \<noteq> None"
    by (simp add: visitor_record_def ex_visitor_ref ex_known_world_def ex_paths_differ)
  have store: "countDoc ex_env ex_known_world = Some [(''count'', JNum 7)]"
    by (simp add: countDoc_def ex_count_ref ex_known_world_def)
  from known_visitor_no_writes [OF h1 h2] show ?thesis
    using h1 h2 by (simp add: store ex_env_fields ex_count_ref)
qed

text \<open>The storage and the trace of a world do not bear on what the store holds.\<close>

lemma frame [simp]:
  "countDoc e (w\<lparr>storage := ls\<rparr>) = countDoc e w"
  "countDoc e (w\<lparr>trace := evs\<rparr>) = countDoc e w"
  "visitor_record e (w\<lparr>storage := ls\<rparr>) v = visitor_record e w v"
  "visitor_record e (w\<lparr>trace := evs\<rparr>) v = visitor_record e w v"
  "visitor_paths e (w\<lparr>storage := ls\<rparr>) = visitor_paths e w"
  "visitor_paths e (w\<lparr>trace := evs\<rparr>) = visitor_paths e w"
  "consistent e (w\<lparr>storage := ls\<rparr>) = consistent e w"
  "consistent e (w\<lparr>trace := evs\<rparr>) = consistent e w"
  by (simp_all add: countDoc_def visitor_record_def visitor_paths_def consistent_def
      split: sum.split)

lemma count_write_shape:
  "SetDoc_count flds m \<in> set (new_events w (snd (trackPageView e w))) \<Longrightarrow>
   m \<and> map fst flds = [''count'', ''lastUpdate'']"
proof (cases e w rule: run_cases)
  case (read_only ls evs)
  from read_only(2) have "SetDoc_count flds m \<notin> set evs"
    by (auto simp: filter_empty_conv is_write_def)
  with read_only(1) show "SetDoc_count flds m \<in> set (new_events w (snd (trackPageView e w))) \<Longrightarrow> ?thesis"
    by (simp add: new_events_def)
qed (auto simp: new_events_def count_fields_def)

lemma other_fields_kept:
  assumes "countDoc e w = Some d" and "k \<noteq> ''count''" and "k \<noteq> ''lastUpdate''"
  shows "\<exists>d'. countDoc e (snd (trackPageView e w)) = Some d' \<and> map_of d' k = map_of d k"
proof (cases e w rule: run_cases)
  case (visitor_write_failed ls vid cr)
  with assms show ?thesis
    by (simp add: observed_count update_conv' merged_other_field)
next
  case (counted ls vid vr cr)
  have "vr \<noteq> cr"
    using counted(2,1) by (rule refs_differ) simp
  with counted assms show ?thesis
    by (simp add: observed_count update_conv' merged_other_field)
qed (use assms in simp_all)

text \<open>
  Claim C6. Every write of the counter that a run calls is a \<open>setDoc\<close> with
  \<open>merge: true\<close> whose fields are \<open>count\<close> and \<open>lastUpdate\<close>, and every other field
  of the counter document has after the run the value it had before it.
\<close>

theorem counter_write_merges:
  "(\<forall>flds m. SetDoc_count flds m \<in> set (new_events w (snd (trackPageView e w))) \<longrightarrow>
       m \<and> map fst flds = [''count'', ''lastUpdate''])
   \<and> (\<forall>d k. countDoc e w = Some d \<and> k \<noteq> ''count'' \<and> k \<noteq> ''lastUpdate'' \<longrightarrow>
       (\<exists>d'. countDoc e (snd (trackPageView e w)) = Some d' \<and> map_of d' k = map_of d k))"
  using count_write_shape [of _ _ w e] other_fields_kept [of e w] by blast

text \<open>A new visitor on a counter document that carries an \<open>owner\<close> field.\<close>

lemma ex_owned_call: "getUniqueVisitorId ex_env (storage ex_owned_world) =
   Inr (ex_id, ex_storage\<lparr>items := [(visitor_key, ex_id)], writes := [(visitor_key, ex_id)]\<rparr>)"
  by (simp add: getUniqueVisitorId_def getItem_def setItem_def no_item_def ex_owned_world_def
      ex_storage_def fresh_id_ex_env)

lemma ex_owned_run: "trackPageView ex_env ex_owned_world =
  (Resolved, ex_owned_world\<lparr>
     storage := ex_storage\<lparr>items := [(visitor_key, ex_id)], writes := [(visitor_key, ex_id)]\<rparr>,
     docs := [(ex_count_path, [(''owner'', JStr ''siraw''), (''count'', JNum 8),
                               (''lastUpdate'', JStr ''2024-01-01T00:00:00.000Z'')]),
              (ex_visitor_path ex_id, visitor_fields ex_env)],
     trace := [GetDoc_visitor ex_id, GetDoc_count,
       SetDoc_count [(''count'', JNum 8), (''lastUpdate'', JStr ''2024-01-01T00:00:00.000Z'')] True,
       SetDoc_visitor ex_id (visitor_fields ex_env) False]\<rparr>)"
proof -
  have store: "docs ex_owned_world =
      [(ex_count_path, [(''owner'', JStr ''siraw''), (''count'', JNum 7)])]"
    and log: "trace ex_owned_world = []"
    by (simp_all add: ex_owned_world_def)
  have new: "map_of (docs ex_owned_world) (ex_visitor_path ex_id) = None"
    by (simp add: store ex_paths_differ)
  have found: "map_of (docs ex_owned_world) ex_count_path =
      Some [(''owner'', JStr ''siraw''), (''count'', JNum 7)]"
    by (simp add: store)
  have flds: "count_fields ex_env (Some [(''owner'', JStr ''siraw''), (''count'', JNum 7)]) =
      [(''count'', JNum 8), (''lastUpdate'', JStr ''2024-01-01T00:00:00.000Z'')]"
    by (simp add: count_fields_def currentCount_def data_field_def double_succ_def ex_env_fields)
  have merged: "setDoc (Some [(''owner'', JStr ''siraw''), (''count'', JNum 7)])
      [(''count'', JNum 8), (''lastUpdate'', JStr ''2024-01-01T00:00:00.000Z'')] True =
      [(''owner'', JStr ''siraw''), (''count'', JNum 8),
       (''lastUpdate'', JStr ''2024-01-01T00:00:00.000Z'')]"
    by (simp add: setDoc_def merge_fields_def)
  from run_new_visitor [OF ex_env_fields(1,2) ex_owned_call ex_visitor_ref(1) ex_count_ref(1)
      ex_env_fields(3) new ex_env_fields(3) ex_env_fields(3) ex_env_fields(3)]
  show ?thesis
    by (simp add: found flds merged log) (simp add: store ex_paths_differ)
qed

theorem counter_write_merges_witness:
  "SetDoc_count [(''count'', JNum 8), (''lastUpdate'', JStr ''2024-01-01T00:00:00.000Z'')] True
     \<in> set (new_events ex_owned_world (snd (trackPageView ex_env ex_owned_world)))
   \<and> countDoc ex_env ex_owned_world = Some [(''owner'', JStr ''siraw''), (''count'', JNum 7)]
   \<and> countDoc ex_env (snd (trackPageView ex_env ex_owned_world)) =
       Some [(''owner'', JStr ''siraw''), (''count'', JNum 8),
             (''lastUpdate'', JStr ''2024-01-01T00:00:00.000Z'')]
   \<and> (\<exists>d'. countDoc ex_env (snd (trackPageView ex_env ex_owned_world)) = Some d'
         \<and> map_of d' ''owner'' = Some (JStr ''siraw''))"
proof -
  have ev: "SetDoc_count [(''count'', JNum 8), (''lastUpdate'', JStr ''2024-01-01T00:00:00.000Z'')] True
     \<in> set (new_events ex_owned_world (snd (trackPageView ex_env ex_owned_world)))"
    by (simp add: ex_owned_run new_events_def) (simp add: ex_owned_world_def)
  have before: "countDoc ex_env ex_owned_world = Some [(''owner'', JStr ''siraw''), (''count'', JNum 7)]"
    by (simp add: countDoc_def ex_count_ref ex_owned_world_def)
  have after: "countDoc ex_env (snd (trackPageView ex_env ex_owned_world)) =
       Some [(''owner'', JStr ''siraw''), (''count'', JNum 8),
             (''lastUpdate'', JStr ''2024-01-01T00:00:00.000Z'')]"
    by (simp add: countDoc_def ex_count_ref ex_owned_run)
  have "\<exists>d'. countDoc ex_env (snd (trackPageView ex_env ex_owned_world)) = Some d'
      \<and> map_of d' ''owner'' = map_of [(''owner'', JStr ''siraw''), (''count'', JNum 7)] ''owner''"
    by (rule counter_write_merges [THEN conjunct2, rule_format]) (simp add: before)
  then have "\<exists>d'. countDoc ex_env (snd (trackPageView ex_env ex_owned_world)) = Some d'
      \<and> map_of d' ''owner'' = Some (JStr ''siraw'')"
    by simp
  then show ?thesis
    using ev before after by simp
qed

section \<open>Errors of the store\<close>

lemma storage_error_only: "getUniqueVisitorId e ls = Inl err \<Longrightarrow> err = StorageError"
  by (auto simp: getUniqueVisitorId_def getItem_def setItem_def split: if_splits)

lemma doc_error_only: "doc args = Inl err \<Longrightarrow> err = InvalidArgument"
  by (auto simp: doc_def split: list.splits if_splits)

lemma rejected_errors:
  "fst (trackPageView e w) = Rejected err \<Longrightarrow> err = StorageError \<or> err = InvalidArgument"
  by (auto simp: trackPageView_def getCountDocRef_def getVisitorDocRef_def
      dest: storage_error_only doc_error_only split: if_splits sum.splits prod.splits)

lemma store_reached:
  "new_events w (snd (trackPageView e w)) \<noteq> [] \<Longrightarrow>
   isAuthReady e \<and> db e
   \<and> (\<exists>vid ls vr cr. getUniqueVisitorId e (storage w) = Inr (vid, ls)
         \<and> getVisitorDocRef e vid = Inr vr \<and> getCountDocRef e = Inr cr)"
  by (auto simp: trackPageView_def new_events_def split: if_splits sum.splits prod.splits)

text \<open>
  Claim C8. A run calls the store only when its session is ready, its identifier obtained
  and both references built. In such a run, whichever operation of the store rejects, the
  promise of \<open>trackPageView\<close> resolves: the error is caught, \<open>console.error\<close> is the
  last thing the run does and no operation of the store follows the one that rejected. No
  run at all is rejected with an error of the store. The error callback of the
  subscription logs the error and leaves the displayed count, the pulse flag and the
  pending timeouts as they are.
\<close>

theorem store_errors_swallowed:
  assumes "isAuthReady e" and "db e" and "getUniqueVisitorId e (storage w) = Inr (vid, ls)"
    and "getVisitorDocRef e vid = Inr vr" and "getCountDocRef e = Inr cr"
  shows "fst (trackPageView e w) = Resolved
    \<and> (fails e GetVisitor \<longrightarrow>
         new_events w (snd (trackPageView e w)) =
           [GetDoc_visitor vid, Console_error ''Error tracking view:'' (StoreError GetVisitor)])
    \<and> (\<not> fails e GetVisitor \<and> visitor_record e w vid = None \<and> fails e GetCount \<longrightarrow>
         new_events w (snd (trackPageView e w)) =
           [GetDoc_visitor vid, GetDoc_count,
            Console_error ''Error tracking view:'' (StoreError GetCount)])
    \<and> (\<not> fails e GetVisitor \<and> visitor_record e w vid = None \<and> \<not> fails e GetCount
          \<and> fails e SetCount \<longrightarrow>
         new_events w (snd (trackPageView e w)) =
           [GetDoc_visitor vid, GetDoc_count, SetDoc_count (count_fields e (countDoc e w)) True,
            Console_error ''Error tracking view:'' (StoreError SetCount)])
    \<and> (\<not> fails e GetVisitor \<and> visitor_record e w vid = None \<and> \<not> fails e GetCount
          \<and> \<not> fails e SetCount \<and> fails e SetVisitor \<longrightarrow>
         new_events w (snd (trackPageView e w)) =
           [GetDoc_visitor vid, GetDoc_count, SetDoc_count (count_fields e (countDoc e w)) True,
            SetDoc_visitor vid (visitor_fields e) False,
            Console_error ''Error tracking view:'' (StoreError SetVisitor)])
    \<and> (\<forall>op. fst (trackPageView e0 w0) \<noteq> Rejected (StoreError op))
    \<and> (new_events w0 (snd (trackPageView e0 w0)) \<noteq> [] \<longrightarrow>
         isAuthReady e0 \<and> db e0
         \<and> (\<exists>vid0 ls0 vr0 cr0. getUniqueVisitorId e0 (storage w0) = Inr (vid0, ls0)
               \<and> getVisitorDocRef e0 vid0 = Inr vr0 \<and> getCountDocRef e0 = Inr cr0))
    \<and> viewCount (on_snapshot_error err s) = viewCount s
    \<and> isPulsing (on_snapshot_error err s) = isPulsing s
    \<and> timeouts (on_snapshot_error err s) = timeouts s
    \<and> console (on_snapshot_error err s) = console s @ [(''Error listening to view count:'', err)]"
proof -
  note obs = observed_count [OF assms(5)] observed_visitor [OF assms(4)]
  have "fst (trackPageView e w) = Resolved"
    using assms(3-5) by (simp add: trackPageView_def split: sum.split prod.split)
  moreover have "new_events w (snd (trackPageView e w)) =
      [GetDoc_visitor vid, Console_error ''Error tracking view:'' (StoreError GetVisitor)]"
    if "fails e GetVisitor"
    using run_get_visitor_fails [OF assms that] by (simp add: new_events_def)
  moreover have "new_events w (snd (trackPageView e w)) =
      [GetDoc_visitor vid, GetDoc_count,
       Console_error ''Error tracking view:'' (StoreError GetCount)]"
    if "\<not> fails e GetVisitor" "visitor_record e w vid = None" "fails e GetCount"
    using run_get_count_fails [OF assms that(1) _ that(3)] that(2)
    by (simp add: new_events_def obs)
  moreover have "new_events w (snd (trackPageView e w)) =
      [GetDoc_visitor vid, GetDoc_count, SetDoc_count (count_fields e (countDoc e w)) True,
       Console_error ''Error tracking view:'' (StoreError SetCount)]"
    if "\<not> fails e GetVisitor" "visitor_record e w vid = None" "\<not> fails e GetCount"
      "fails e SetCount"
    using run_set_count_fails [OF assms that(1) _ that(3,4)] that(2)
    by (simp add: new_events_def obs)
  moreover have "new_events w (snd (trackPageView e w)) =
      [GetDoc_visitor vid, GetDoc_count, SetDoc_count (count_fields e (countDoc e w)) True,
       SetDoc_visitor vid (visitor_fields e) False,
       Console_error ''Error tracking view:'' (StoreError SetVisitor)]"
    if "\<not> fails e GetVisitor" "visitor_record e w vid = None" "\<not> fails e GetCount"
      "\<not> fails e SetCount" "fails e SetVisitor"
    using run_set_visitor_fails [OF assms that(1) _ that(3,4,5)] that(2)
    by (simp add: new_events_def obs)
  moreover have "\<forall>op. fst (trackPageView e0 w0) \<noteq> Rejected (StoreError op)"
    using rejected_errors [of e0 w0] by auto
  moreover note store_reached [of w0 e0]
  ultimately show ?thesis
    by (simp add: on_snapshot_error_def)
qed

lemma ex_read_fail_call: "getUniqueVisitorId ex_env_read_fails (storage ex_world) =
   Inr (ex_id, ex_storage\<lparr>items := [(visitor_key, ex_id)], writes := [(visitor_key, ex_id)]\<rparr>)"
proof -
  have "fresh_id ex_env_read_fails = fresh_id ex_env"
    by (simp add: fresh_id_def ex_env_read_fails_def)
  then show ?thesis
    by (simp add: getUniqueVisitorId_def getItem_def setItem_def no_item_def ex_world_def
      ex_storage_def fresh_id_ex_env)
qed

theorem store_errors_swallowed_witness:
  "isAuthReady ex_env_read_fails \<and> db ex_env_read_fails
   \<and> getUniqueVisitorId ex_env_read_fails (storage ex_world) =
       Inr (ex_id, ex_storage\<lparr>items := [(visitor_key, ex_id)], writes := [(visitor_key, ex_id)]\<rparr>)
   \<and> getVisitorDocRef ex_env_read_fails ex_id = Inr (ex_visitor_path ex_id)
   \<and> getCountDocRef ex_env_read_fails = Inr ex_count_path
   \<and> fails ex_env_read_fails GetVisitor
   \<and> fst (trackPageView ex_env_read_fails ex_world) = Resolved
   \<and> new_events ex_world (snd (trackPageView ex_env_read_fails ex_world)) =
       [GetDoc_visitor ex_id, Console_error ''Error tracking view:'' (StoreError GetVisitor)]
   \<and> viewCount (on_snapshot_error (StoreError GetCount) ex_ui) = JNum 5"
proof -
  have h1: "isAuthReady ex_env_read_fails" and h2: "db ex_env_read_fails"
    and h4: "fails ex_env_read_fails GetVisitor"
    by (simp_all add: ex_env_read_fails_def ex_env_def)
  have shown: "viewCount ex_ui = JNum 5"
    by (simp add: ex_ui_def)
  from store_errors_swallowed [OF h1 h2 ex_read_fail_call ex_visitor_ref(3) ex_count_ref(4),
      where err = "StoreError GetCount" and s = ex_ui]
  show ?thesis
    using h1 h2 h4 ex_read_fail_call by (simp add: ex_visitor_ref ex_count_ref shown)
qed

text \<open>
  The identifier \<open>a/b\<close> in local storage: \<open>doc\<close> throws on it before the \<open>try\<close>, the
  promise is rejected and nothing is read, written or logged.
\<close>

lemma ex_slash_run:
  "trackPageView ex_env (ex_world\<lparr>storage := ex_storage_slash\<rparr>) =
     (Rejected InvalidArgument, ex_world\<lparr>storage := ex_storage_slash\<rparr>)"
proof -
  have call: "getUniqueVisitorId ex_env (storage (ex_world\<lparr>storage := ex_storage_slash\<rparr>)) =
      Inr (''a/b'', ex_storage_slash)"
    by (simp add: getUniqueVisitorId_def getItem_def no_item_def ex_storage_slash_def
        ex_storage_def visitor_key_def)
  have "getVisitorDocRef ex_env ''a/b'' = Inl InvalidArgument"
    by (simp add: getVisitorDocRef_def doc_def segments_literals ex_appId segments_plain
        no_double_slash_plain) (simp add: segments_def)
  from run_visitor_ref_throws [OF ex_env_fields(1,2) call this] show ?thesis
    by simp
qed

section \<open>The two writes of a new visitor\<close>






section \<open>The counter and the number of visitor records\<close>

lemma run_consistent:
  assumes "consistent e0 w" and "appId e = appId e0" and "\<not> fails e SetVisitor"
    and "card (visitor_paths e0 w) < 2 ^ 53"
  shows "consistent e0 (snd (trackPageView e w))
    \<and> visitor_paths e0 w \<subseteq> visitor_paths e0 (snd (trackPageView e w))
    \<and> card (visitor_paths e0 (snd (trackPageView e w))) \<le> Suc (card (visitor_paths e0 w))"
proof (cases e w rule: run_cases)
  case (counted ls vid vr cr)
  let ?w = "snd (trackPageView e w)"
  let ?cd = "setDoc (map_of (docs w) cr) (count_fields e (map_of (docs w) cr)) True"
  have cref0: "getCountDocRef e0 = Inr cr"
    using counted(2) refs_of_appId(1) [OF assms(2)] by simp
  have path: "is_visitor_path e0 vr" and not_path: "\<not> is_visitor_path e0 cr"
    using visitor_ref_is_visitor_path [OF counted(1)] count_ref_not_visitor_path [OF counted(2)]
      refs_of_appId(3) [OF assms(2)] by simp_all
  have diff: "vr \<noteq> cr"
    using counted(2,1) by (rule refs_differ) simp
  have store: "docs ?w = AList.update vr (visitor_fields e) (AList.update cr ?cd (docs w))"
    by (simp add: counted(4))
  have "fst ` set (docs ?w) = insert vr (insert cr (fst ` set (docs w)))"
    by (auto simp: store dom_update)
  with path not_path have paths: "visitor_paths e0 ?w = insert vr (visitor_paths e0 w)"
    by (auto simp: visitor_paths_def)
  have "vr \<notin> visitor_paths e0 w"
    using counted(3) by (simp add: visitor_paths_def map_of_eq_None_iff)
  moreover have "finite (visitor_paths e0 w)"
    by (simp add: visitor_paths_def)
  ultimately have size: "card (visitor_paths e0 ?w) = Suc (card (visitor_paths e0 w))"
    by (simp add: paths)
  have "countDoc e0 ?w = Some ?cd"
    using diff by (simp add: observed_count [OF cref0] store update_conv')
  then have "currentCount (countDoc e0 ?w) = js_plus_one (currentCount (countDoc e0 w))"
    by (simp add: merged_count observed_count [OF cref0])
  also have "\<dots> = JNum (int (card (visitor_paths e0 w)) + 1)"
    using assms(1,4) by (simp add: consistent_def double_succ_def)
  finally have "consistent e0 ?w"
    by (simp add: consistent_def size)
  with paths size show ?thesis
    by auto
next
  case (visitor_write_failed ls vid cr)
  with assms(3) show ?thesis by simp
qed (use assms(1) in simp_all)

lemma runs_consistent:
  "consistent e w \<Longrightarrow> \<forall>c \<in> set cs. appId (fst c) = appId e \<and> \<not> fails (fst c) SetVisitor \<Longrightarrow>
   card (visitor_paths e w) + length cs \<le> 2 ^ 53 \<Longrightarrow>
   consistent e (runs cs w) \<and> visitor_paths e w \<subseteq> visitor_paths e (runs cs w)"
proof (induction cs arbitrary: w)
  case Nil
  then show ?case by simp
next
  case (Cons c cs)
  obtain e1 ls where c: "c = (e1, ls)"
    by (cases c)
  let ?start = "w\<lparr>storage := ls\<rparr>"
  let ?w = "snd (trackPageView e1 ?start)"
  have small: "card (visitor_paths e ?start) < 2 ^ 53"
    using Cons.prems(3) by simp
  have step: "consistent e ?w \<and> visitor_paths e ?start \<subseteq> visitor_paths e ?w
      \<and> card (visitor_paths e ?w) \<le> Suc (card (visitor_paths e ?start))"
    using Cons.prems(1,2) c small by (intro run_consistent) auto
  then have "card (visitor_paths e ?w) + length cs \<le> 2 ^ 53"
    using Cons.prems(3) by simp
  with Cons.IH [of ?w] step Cons.prems(2)
  have "consistent e (runs cs ?w) \<and> visitor_paths e ?w \<subseteq> visitor_paths e (runs cs ?w)"
    by simp
  with step show ?case
    by (auto simp: c)
qed

text \<open>
  Claim C3, amended. From a store in which the counter (0 when its document is absent) is
  the number of visitor records, as in the empty store, after each run of a sequence of
  runs of the same application, in none of which the write of the visitor record rejects
  and which is short enough for the number of records to stay within \<open>2 ^ 53\<close>, the
  counter is the number of visitor records; and no run removes a record, so that number
  is the number of records ever created.
\<close>

theorem counter_matches_records:
  assumes "consistent e w"
    and "\<forall>c \<in> set cs. appId (fst c) = appId e \<and> \<not> fails (fst c) SetVisitor"
    and "card (visitor_paths e w) + length cs \<le> 2 ^ 53"
  shows "\<forall>n. consistent e (runs (take n cs) w)
    \<and> visitor_paths e w \<subseteq> visitor_paths e (runs (take n cs) w)"
proof
  fix n
  from assms(2) have "\<forall>c \<in> set (take n cs). appId (fst c) = appId e \<and> \<not> fails (fst c) SetVisitor"
    by (meson in_set_takeD)
  moreover from assms(3) have "card (visitor_paths e w) + length (take n cs) \<le> 2 ^ 53"
    by simp
  ultimately show "consistent e (runs (take n cs) w)
      \<and> visitor_paths e w \<subseteq> visitor_paths e (runs (take n cs) w)"
    using assms(1) by (intro runs_consistent)
qed

lemma ex_empty_consistent: "consistent ex_env ex_world"
  by (simp add: consistent_def currentCount_def countDoc_def ex_count_ref visitor_paths_def
      ex_world_def)

text \<open>
  As stated for any sequence of runs the claim fails: after one run on the empty store
  whose write of the visitor record rejects, the counter is 1 and there is no record.
\<close>

theorem counter_matches_records_counterexample:
  "consistent ex_env ex_world
   \<and> currentCount (countDoc ex_env (runs [(ex_env_visitor_write_fails, ex_storage)] ex_world)) = JNum 1
   \<and> visitor_paths ex_env (runs [(ex_env_visitor_write_fails, ex_storage)] ex_world) = {}
   \<and> \<not> consistent ex_env (runs [(ex_env_visitor_write_fails, ex_storage)] ex_world)"
proof -
  have same: "ex_world\<lparr>storage := ex_storage\<rparr> = ex_world"
    by (simp add: ex_world_def)
  have no_path: "\<not> is_visitor_path ex_env ex_count_path"
    using ex_count_ref(1) by (rule count_ref_not_visitor_path)
  have count: "currentCount (countDoc ex_env (snd (trackPageView ex_env_visitor_write_fails ex_world))) = JNum 1"
    by (simp add: ex_fail_run countDoc_def ex_count_ref currentCount_def data_field_def)
  have paths: "visitor_paths ex_env (snd (trackPageView ex_env_visitor_write_fails ex_world)) = {}"
    using no_path by (simp add: ex_fail_run visitor_paths_def)
  have "\<not> consistent ex_env (snd (trackPageView ex_env_visitor_write_fails ex_world))"
    by (simp add: consistent_def count paths)
  then show ?thesis
    by (simp add: same ex_empty_consistent count paths)
qed

text \<open>
  Two new visitors, then the first of them again with its identifier in its storage.
\<close>

lemma fresh_id_ex_env2: "fresh_id ex_env2 = ex_id2"
  by (simp add: fresh_id_def ex_env2_def ex_env_def ex_id2_def string_of_nat.simps digit_char_def)

lemma ex_env2_fields:
  "isAuthReady ex_env2" "db ex_env2" "\<not> fails ex_env2 op"
  "count_time ex_env2 = ''2024-01-01T00:00:00.000Z''"
  by (simp_all add: ex_env2_def ex_env_def)

lemma ex_ids_differ: "ex_id2 \<noteq> ex_id" "ex_visitor_path ex_id2 \<noteq> ex_visitor_path ex_id"
  by (simp_all add: ex_id_def ex_id2_def ex_visitor_path_def)

lemma ex_is_visitor_path:
  "is_visitor_path ex_env (ex_visitor_path v)" "\<not> is_visitor_path ex_env ex_count_path"
  by (simp_all add: is_visitor_path_def visitors_collection_path ex_appId segments_plain
      ex_visitor_path_def ex_count_path_def)

lemma ex_first_run:
  "docs (snd (trackPageView ex_env (ex_world\<lparr>storage := ex_storage\<rparr>))) =
     [(ex_count_path, [(''count'', JNum 1), (''lastUpdate'', JStr ''2024-01-01T00:00:00.000Z'')]),
      (ex_visitor_path ex_id, visitor_fields ex_env)]"
proof -
  have same: "ex_world\<lparr>storage := ex_storage\<rparr> = ex_world"
    by (simp add: ex_world_def)
  have store: "docs ex_world = []"
    by (simp add: ex_world_def)
  have merged: "setDoc None [(''count'', JNum 1), (''lastUpdate'', JStr ''2024-01-01T00:00:00.000Z'')]
      True = [(''count'', JNum 1), (''lastUpdate'', JStr ''2024-01-01T00:00:00.000Z'')]"
    by (simp add: setDoc_def merge_fields_def)
  from run_new_visitor [OF ex_env_fields(1,2) ex_id_call ex_visitor_ref(1) ex_count_ref(1)
      ex_env_fields(3) _ ex_env_fields(3) ex_env_fields(3) ex_env_fields(3)]
  show ?thesis
    by (simp add: same store count_fields_absent ex_env_fields merged ex_paths_differ)
qed

lemma ex_second_run:
  assumes "docs w =
     [(ex_count_path, [(''count'', JNum 1), (''lastUpdate'', JStr ''2024-01-01T00:00:00.000Z'')]),
      (ex_visitor_path ex_id, visitor_fields ex_env)]"
  shows "docs (snd (trackPageView ex_env2 (w\<lparr>storage := ex_storage\<rparr>))) =
     [(ex_count_path, [(''count'', JNum 2), (''lastUpdate'', JStr ''2024-01-01T00:00:00.000Z'')]),
      (ex_visitor_path ex_id, visitor_fields ex_env),
      (ex_visitor_path ex_id2, visitor_fields ex_env2)]"
proof -
  let ?w = "w\<lparr>storage := ex_storage\<rparr>"
  let ?cd = "[(''count'', JNum 1), (''lastUpdate'', JStr ''2024-01-01T00:00:00.000Z'')]"
  have call: "getUniqueVisitorId ex_env2 (storage ?w) =
      Inr (ex_id2, ex_storage\<lparr>items := [(visitor_key, ex_id2)], writes := [(visitor_key, ex_id2)]\<rparr>)"
    by (simp add: getUniqueVisitorId_def getItem_def setItem_def no_item_def ex_storage_def
        fresh_id_ex_env2)
  have new: "map_of (docs ?w) (ex_visitor_path ex_id2) = None"
    by (simp add: assms ex_ids_differ ex_paths_differ)
  have found: "map_of (docs w) ex_count_path = Some ?cd"
    by (simp add: assms)
  have flds: "count_fields ex_env2 (Some ?cd) =
      [(''count'', JNum 2), (''lastUpdate'', JStr ''2024-01-01T00:00:00.000Z'')]"
    by (simp add: count_fields_def currentCount_def data_field_def double_succ_def ex_env2_fields)
  have merged: "setDoc (Some ?cd)
      [(''count'', JNum 2), (''lastUpdate'', JStr ''2024-01-01T00:00:00.000Z'')] True =
      [(''count'', JNum 2), (''lastUpdate'', JStr ''2024-01-01T00:00:00.000Z'')]"
    by (simp add: setDoc_def merge_fields_def)
  from run_new_visitor [OF ex_env2_fields(1,2) call ex_visitor_ref(4) ex_count_ref(2)
      ex_env2_fields(3) new ex_env2_fields(3) ex_env2_fields(3) ex_env2_fields(3)]
  have run: "docs (snd (trackPageView ex_env2 ?w)) =
      AList.update (ex_visitor_path ex_id2) (visitor_fields ex_env2)
        (AList.update ex_count_path
          [(''count'', JNum 2), (''lastUpdate'', JStr ''2024-01-01T00:00:00.000Z'')] (docs w))"
    by (simp add: found flds merged)
  show ?thesis
    unfolding run
    by (simp add: assms ex_ids_differ ex_ids_differ [symmetric] ex_paths_differ)
qed

lemma ex_third_run:
  assumes "map_of (docs w) (ex_visitor_path ex_id) \<noteq> None"
  shows "docs (snd (trackPageView ex_env (w\<lparr>storage := ex_storage_used\<rparr>))) = docs w"
proof -
  let ?w = "w\<lparr>storage := ex_storage_used\<rparr>"
  have call: "getUniqueVisitorId ex_env (storage ?w) = Inr (ex_id, ex_storage_used)"
    by (simp add: getUniqueVisitorId_def getItem_def no_item_def ex_storage_used_def ex_storage_def
        visitor_key_def) (simp add: ex_id_def)
  have known: "map_of (docs ?w) (ex_visitor_path ex_id) \<noteq> None"
    using assms by simp
  from run_known_visitor [OF ex_env_fields(1,2) call ex_visitor_ref(1) ex_count_ref(1)
      ex_env_fields(3) known]
  show ?thesis
    by simp
qed

lemma ex_three_runs:
  "docs (runs [(ex_env, ex_storage), (ex_env2, ex_storage), (ex_env, ex_storage_used)] ex_world) =
     [(ex_count_path, [(''count'', JNum 2), (''lastUpdate'', JStr ''2024-01-01T00:00:00.000Z'')]),
      (ex_visitor_path ex_id, visitor_fields ex_env),
      (ex_visitor_path ex_id2, visitor_fields ex_env2)]"
proof -
  note w2 = ex_second_run [OF ex_first_run]
  have "map_of (docs (snd (trackPageView ex_env2
      (snd (trackPageView ex_env (ex_world\<lparr>storage := ex_storage\<rparr>))\<lparr>storage := ex_storage\<rparr>))))
      (ex_visitor_path ex_id) \<noteq> None"
    by (simp add: w2 ex_paths_differ)
  from ex_third_run [OF this] show ?thesis
    by (simp add: w2)
qed

theorem counter_matches_records_witness:
  "consistent ex_env ex_world
   \<and> appId ex_env2 = appId ex_env
   \<and> \<not> fails ex_env SetVisitor \<and> \<not> fails ex_env2 SetVisitor
   \<and> card (visitor_paths ex_env ex_world) + 3 \<le> 2 ^ 53
   \<and> consistent ex_env
       (runs [(ex_env, ex_storage), (ex_env2, ex_storage), (ex_env, ex_storage_used)] ex_world)
   \<and> currentCount (countDoc ex_env
        (runs [(ex_env, ex_storage), (ex_env2, ex_storage), (ex_env, ex_storage_used)] ex_world)) = JNum 2
   \<and> visitor_paths ex_env
        (runs [(ex_env, ex_storage), (ex_env2, ex_storage), (ex_env, ex_storage_used)] ex_world) =
       {ex_visitor_path ex_id, ex_visitor_path ex_id2}"
proof -
  let ?cs = "[(ex_env, ex_storage), (ex_env2, ex_storage), (ex_env, ex_storage_used)]"
  have f: "appId ex_env2 = appId ex_env" "\<not> fails ex_env SetVisitor" "\<not> fails ex_env2 SetVisitor"
    by (simp_all add: ex_env_fields ex_env2_fields ex_appId)
  then have h2: "\<forall>c \<in> set ?cs. appId (fst c) = appId ex_env \<and> \<not> fails (fst c) SetVisitor"
    by simp
  have none: "visitor_paths ex_env ex_world = {}"
    by (simp add: visitor_paths_def ex_world_def)
  then have h3: "card (visitor_paths ex_env ex_world) + length ?cs \<le> 2 ^ 53"
    by simp
  from counter_matches_records [OF ex_empty_consistent h2 h3, THEN spec, of 3]
  have "consistent ex_env (runs ?cs ex_world)"
    by simp
  moreover have "currentCount (countDoc ex_env (runs ?cs ex_world)) = JNum 2"
    by (simp add: countDoc_def ex_count_ref ex_three_runs currentCount_def data_field_def
        del: runs.simps)
  moreover have "visitor_paths ex_env (runs ?cs ex_world) =
      {ex_visitor_path ex_id, ex_visitor_path ex_id2}"
    by (auto simp: visitor_paths_def ex_three_runs ex_is_visitor_path simp del: runs.simps)
  ultimately show ?thesis
    using ex_empty_consistent f none by (simp del: runs.simps)
qed

section \<open>The visitor identifier\<close>

lemma fresh_id_not_empty: "fresh_id e \<noteq> []"
  by (simp add: fresh_id_def)

lemma getUniqueVisitorId_stored:
  "\<not> getItem_throws ls \<Longrightarrow> map_of (items ls) visitor_key = Some s \<Longrightarrow> s \<noteq> [] \<Longrightarrow>
   getUniqueVisitorId e ls = Inr (s, ls)"
  by (simp add: getUniqueVisitorId_def getItem_def no_item_def)

lemma getUniqueVisitorId_fresh:
  "\<not> getItem_throws ls \<Longrightarrow> \<not> setItem_throws ls \<Longrightarrow> no_item (map_of (items ls) visitor_key) \<Longrightarrow>
   getUniqueVisitorId e ls =
     Inr (fresh_id e, ls\<lparr>items := AList.update visitor_key (fresh_id e) (items ls),
                          writes := writes ls @ [(visitor_key, fresh_id e)]\<rparr>)"
  by (simp add: getUniqueVisitorId_def getItem_def setItem_def)

lemma call_seq_stored:
  "\<not> getItem_throws ls \<Longrightarrow> map_of (items ls) visitor_key = Some s \<Longrightarrow> s \<noteq> [] \<Longrightarrow>
   call_seq es ls = (replicate (length es) (Inr s), ls)"
  by (induction es) (simp_all add: getUniqueVisitorId_stored)

text \<open>
  Claim C4. While local storage is available (neither \<open>getItem\<close> nor \<open>setItem\<close>
  throws) and nothing else changes the key, every call of a sequence of calls of
  \<open>getUniqueVisitorId\<close> returns the same identifier. From a storage without the item the
  first call generates the identifier and writes it under \<open>siraw_unique_visitor_id\<close>, and
  that is the only write of the whole sequence; from a storage that holds the item every
  call returns it and none writes.
\<close>

theorem visitor_id_stable:
  assumes "\<not> getItem_throws ls" and "\<not> setItem_throws ls"
  shows "(no_item (map_of (items ls) visitor_key) \<longrightarrow>
           call_seq (e # es) ls =
             (replicate (Suc (length es)) (Inr (fresh_id e)),
              ls\<lparr>items := AList.update visitor_key (fresh_id e) (items ls),
                 writes := writes ls @ [(visitor_key, fresh_id e)]\<rparr>))
       \<and> (\<forall>s. map_of (items ls) visitor_key = Some s \<and> s \<noteq> [] \<longrightarrow>
           call_seq (e # es) ls = (replicate (Suc (length es)) (Inr s), ls))"
proof (intro conjI impI allI)
  assume absent: "no_item (map_of (items ls) visitor_key)"
  let ?ls = "ls\<lparr>items := AList.update visitor_key (fresh_id e) (items ls),
                 writes := writes ls @ [(visitor_key, fresh_id e)]\<rparr>"
  have first: "getUniqueVisitorId e ls = Inr (fresh_id e, ?ls)"
    using assms absent by (rule getUniqueVisitorId_fresh)
  have "map_of (items ?ls) visitor_key = Some (fresh_id e)"
    by (simp add: update_conv')
  moreover have "\<not> getItem_throws ?ls"
    using assms by simp
  ultimately have "call_seq es ?ls = (replicate (length es) (Inr (fresh_id e)), ?ls)"
    using fresh_id_not_empty by (intro call_seq_stored) auto
  with first show "call_seq (e # es) ls = (replicate (Suc (length es)) (Inr (fresh_id e)), ?ls)"
    by simp
next
  fix s
  assume "map_of (items ls) visitor_key = Some s \<and> s \<noteq> []"
  with assms(1) have "call_seq (e # es) ls = (replicate (length (e # es)) (Inr s), ls)"
    by (intro call_seq_stored) auto
  then show "call_seq (e # es) ls = (replicate (Suc (length es)) (Inr s), ls)"
    by simp
qed

text \<open>Three calls on an empty storage, at different times and with different random parts.\<close>

theorem visitor_id_stable_witness:
  "\<not> getItem_throws ex_storage \<and> \<not> setItem_throws ex_storage
   \<and> no_item (map_of (items ex_storage) visitor_key)
   \<and> call_seq [ex_env, ex_env\<lparr>random36 := ''zzz'', date_now := 1700000000999\<rparr>, ex_env] ex_storage =
       ([Inr ex_id, Inr ex_id, Inr ex_id],
        ex_storage\<lparr>items := [(visitor_key, ex_id)], writes := [(visitor_key, ex_id)]\<rparr>)"
proof -
  have h1: "\<not> getItem_throws ex_storage" and h2: "\<not> setItem_throws ex_storage"
    by (simp_all add: ex_storage_def)
  have h3: "no_item (map_of (items ex_storage) visitor_key)"
    by (simp add: ex_storage_def no_item_def)
  from visitor_id_stable [OF h1 h2, of ex_env "[ex_env\<lparr>random36 := ''zzz'', date_now := 1700000000999\<rparr>, ex_env]"] h3
  have "call_seq [ex_env, ex_env\<lparr>random36 := ''zzz'', date_now := 1700000000999\<rparr>, ex_env] ex_storage =
      (replicate (Suc (length [ex_env\<lparr>random36 := ''zzz'', date_now := 1700000000999\<rparr>, ex_env])) (Inr (fresh_id ex_env)),
       ex_storage\<lparr>items := AList.update visitor_key (fresh_id ex_env) (items ex_storage),
                  writes := writes ex_storage @ [(visitor_key, fresh_id ex_env)]\<rparr>)"
    by blast
  then show ?thesis
    using h1 h2 h3 by (simp add: fresh_id_ex_env ex_storage_def)
qed

section \<open>Local storage that fails\<close>

text \<open>
  Claim C7, amended. A call of \<open>getUniqueVisitorId\<close> fails exactly when a storage access
  throws (the read, or the write when the read found no identifier), and that is its only
  error; it then returns no identifier, and \<open>trackPageView\<close>, which calls it before its
  \<open>try\<close>, is rejected with the same error and leaves the store and the trace untouched.
  A call that finds no identifier and whose write is accepted returns a newly generated
  one.
\<close>

theorem storage_failure_propagates:
  "(getUniqueVisitorId e ls = Inl err \<longleftrightarrow>
      err = StorageError
      \<and> (getItem_throws ls \<or> no_item (map_of (items ls) visitor_key) \<and> setItem_throws ls))
   \<and> (\<not> getItem_throws ls \<and> \<not> setItem_throws ls \<and> no_item (map_of (items ls) visitor_key) \<longrightarrow>
        getUniqueVisitorId e ls =
          Inr (fresh_id e, ls\<lparr>items := AList.update visitor_key (fresh_id e) (items ls),
                               writes := writes ls @ [(visitor_key, fresh_id e)]\<rparr>))
   \<and> (isAuthReady e \<and> db e \<and> getUniqueVisitorId e (storage w) = Inl err \<longrightarrow>
        trackPageView e w = (Rejected err, w))"
proof (intro conjI impI)
  show "getUniqueVisitorId e ls = Inl err \<longleftrightarrow>
      err = StorageError
      \<and> (getItem_throws ls \<or> no_item (map_of (items ls) visitor_key) \<and> setItem_throws ls)"
    by (auto simp: getUniqueVisitorId_def getItem_def setItem_def)
next
  assume "\<not> getItem_throws ls \<and> \<not> setItem_throws ls \<and> no_item (map_of (items ls) visitor_key)"
  then show "getUniqueVisitorId e ls =
      Inr (fresh_id e, ls\<lparr>items := AList.update visitor_key (fresh_id e) (items ls),
                           writes := writes ls @ [(visitor_key, fresh_id e)]\<rparr>)"
    by (intro getUniqueVisitorId_fresh) auto
next
  assume "isAuthReady e \<and> db e \<and> getUniqueVisitorId e (storage w) = Inl err"
  then show "trackPageView e w = (Rejected err, w)"
    by (intro run_storage_throws) auto
qed

text \<open>
  As stated the claim fails: on a storage whose reads throw, and on one whose writes
  throw, the call returns the error and no identifier.
\<close>

theorem storage_failure_counterexample:
  "getItem_throws ex_storage_blocked
   \<and> getUniqueVisitorId ex_env ex_storage_blocked = Inl StorageError
   \<and> setItem_throws ex_storage_full
   \<and> getUniqueVisitorId ex_env ex_storage_full = Inl StorageError"
  by (simp add: getUniqueVisitorId_def getItem_def setItem_def no_item_def ex_storage_blocked_def
      ex_storage_full_def ex_storage_def)

theorem storage_failure_propagates_witness:
  "setItem_throws ex_storage_full \<and> no_item (map_of (items ex_storage_full) visitor_key)
   \<and> isAuthReady ex_env \<and> db ex_env
   \<and> getUniqueVisitorId ex_env (storage (ex_world\<lparr>storage := ex_storage_full\<rparr>)) = Inl StorageError
   \<and> trackPageView ex_env (ex_world\<lparr>storage := ex_storage_full\<rparr>) =
       (Rejected StorageError, ex_world\<lparr>storage := ex_storage_full\<rparr>)
   \<and> \<not> getItem_throws ex_storage \<and> \<not> setItem_throws ex_storage
   \<and> getUniqueVisitorId ex_env ex_storage =
       Inr (ex_id, ex_storage\<lparr>items := [(visitor_key, ex_id)], writes := [(visitor_key, ex_id)]\<rparr>)
   \<and> getUniqueVisitorId ex_env2 ex_storage =
       Inr (ex_id2, ex_storage\<lparr>items := [(visitor_key, ex_id2)], writes := [(visitor_key, ex_id2)]\<rparr>)"
proof -
  have full: "setItem_throws ex_storage_full" "no_item (map_of (items ex_storage_full) visitor_key)"
    "\<not> getItem_throws ex_storage_full"
    by (simp_all add: ex_storage_full_def ex_storage_def no_item_def)
  have ready: "isAuthReady ex_env" "db ex_env"
    by (simp_all add: ex_env_def)
  have avail: "\<not> getItem_throws ex_storage" "\<not> setItem_throws ex_storage"
    "no_item (map_of (items ex_storage) visitor_key)"
    by (simp_all add: ex_storage_def no_item_def)
  have thrown: "getUniqueVisitorId ex_env (storage (ex_world\<lparr>storage := ex_storage_full\<rparr>)) =
      Inl StorageError"
    using storage_failure_propagates [of ex_env ex_storage_full StorageError] full by simp
  have "trackPageView ex_env (ex_world\<lparr>storage := ex_storage_full\<rparr>) =
      (Rejected StorageError, ex_world\<lparr>storage := ex_storage_full\<rparr>)"
    using storage_failure_propagates [of ex_env _ StorageError "ex_world\<lparr>storage := ex_storage_full\<rparr>"]
      ready thrown by blast
  moreover have "getUniqueVisitorId ex_env ex_storage =
      Inr (ex_id, ex_storage\<lparr>items := [(visitor_key, ex_id)], writes := [(visitor_key, ex_id)]\<rparr>)"
    using storage_failure_propagates [of ex_env ex_storage] avail
    by (simp add: fresh_id_ex_env) (simp add: ex_storage_def)
  moreover have "getUniqueVisitorId ex_env2 ex_storage =
      Inr (ex_id2, ex_storage\<lparr>items := [(visitor_key, ex_id2)], writes := [(visitor_key, ex_id2)]\<rparr>)"
    using storage_failure_propagates [of ex_env2 ex_storage] avail
    by (simp add: fresh_id_ex_env2) (simp add: ex_storage_def)
  ultimately show ?thesis
    using full ready avail thrown by simp
qed

section \<open>The live counter\<close>

lemma newCount_not_NaN: "newCount d \<noteq> JNaN"
  by (cases "data_field d ''count''") (simp_all add: newCount_def js_or_def)

lemma newCount_zero:
  "map_of d ''count'' = None \<or> map_of d ''count'' = Some (JNum 0) \<Longrightarrow> newCount d = JNum 0"
  by (auto simp: newCount_def js_or_def data_field_def)

lemma on_snapshot_pulse:
  assumes "js_strict_neq (newCount d) (closure_viewCount s)"
    and "js_strict_neq (closure_viewCount s) (JNum 0)"
  shows "on_snapshot (Some d) s =
    s\<lparr>viewCount := newCount d, isPulsing := True, timeouts := timeouts s @ [clock s + 500]\<rparr>"
  using assms by (simp add: on_snapshot_def)

lemma on_snapshot_quiet:
  assumes "newCount d = closure_viewCount s \<or> closure_viewCount s = JNum 0"
  shows "on_snapshot (Some d) s = s\<lparr>viewCount := newCount d\<rparr>"
proof -
  from assms
  have "(js_strict_neq (newCount d) (closure_viewCount s)
      \<and> js_strict_neq (closure_viewCount s) (JNum 0)) = False"
    using newCount_not_NaN [of d] by (auto simp: js_strict_neq_def)
  then show ?thesis
    by (auto simp: on_snapshot_def)
qed

lemma advance_fires:
  "t \<le> d \<Longrightarrow> \<not> isPulsing (advance d (s\<lparr>timeouts := timeouts s @ [clock s + t]\<rparr>))"
  by (simp add: advance_def Let_def)

lemma advance_waits:
  assumes "d < t" and "\<forall>x \<in> set (timeouts s). clock s + d < x"
  shows "isPulsing (advance d (s\<lparr>isPulsing := True, timeouts := timeouts s @ [clock s + t]\<rparr>))"
proof -
  from assms(2) have "filter (\<lambda>x. x \<le> clock s + d) (timeouts s) = []"
    by (auto simp: filter_empty_conv)
  with assms(1) show ?thesis
    by (simp add: advance_def Let_def)
qed

text \<open>
  Claim C5, amended. A snapshot of an existing counter document carries the new count
  \<open>doc.data().count || 0\<close>, and the callback compares it with the displayed count as its
  listener holds it: the \<open>viewCount\<close> of the render that subscribed the listener, which
  is the displayed count once the component has rendered again and re-subscribed. When
  the two differ and the held count is not 0, the callback sets the pulse flag and
  schedules its reset 500 ms later: the flag is down once 500 ms have passed, and up until
  then when nothing else was pending. When the new count is the held count, or the held
  count is 0 (as it is initially), the callback neither sets the flag nor schedules
  anything, whatever the new count. A snapshot of a missing document never pulses.
\<close>

theorem pulse_on_change:
  "(js_strict_neq (newCount d) (closure_viewCount s)
      \<and> js_strict_neq (closure_viewCount s) (JNum 0) \<longrightarrow>
      isPulsing (on_snapshot (Some d) s)
      \<and> timeouts (on_snapshot (Some d) s) = timeouts s @ [clock s + 500]
      \<and> \<not> isPulsing (advance 500 (on_snapshot (Some d) s))
      \<and> (\<forall>t<500. (\<forall>x \<in> set (timeouts s). clock s + t < x) \<longrightarrow>
            isPulsing (advance t (on_snapshot (Some d) s))))
   \<and> (newCount d = closure_viewCount s \<or> closure_viewCount s = JNum 0 \<longrightarrow>
      isPulsing (on_snapshot (Some d) s) = isPulsing s
      \<and> timeouts (on_snapshot (Some d) s) = timeouts s)
   \<and> isPulsing (on_snapshot None s) = isPulsing s
   \<and> timeouts (on_snapshot None s) = timeouts s
   \<and> closure_viewCount (on_snapshot snap s) = closure_viewCount s
   \<and> closure_viewCount (resubscribe s) = viewCount s"
proof (intro conjI impI allI)
  assume changed: "js_strict_neq (newCount d) (closure_viewCount s)
      \<and> js_strict_neq (closure_viewCount s) (JNum 0)"
  then have cb: "on_snapshot (Some d) s =
      s\<lparr>viewCount := newCount d, isPulsing := True, timeouts := timeouts s @ [clock s + 500]\<rparr>"
    by (intro on_snapshot_pulse) auto
  show "isPulsing (on_snapshot (Some d) s)"
    and "timeouts (on_snapshot (Some d) s) = timeouts s @ [clock s + 500]"
    by (simp_all add: cb)
  show "\<not> isPulsing (advance 500 (on_snapshot (Some d) s))"
    using advance_fires [of 500 500 "s\<lparr>viewCount := newCount d, isPulsing := True\<rparr>"]
    by (simp add: cb)
  fix t :: nat
  assume "t < 500" and "\<forall>x \<in> set (timeouts s). clock s + t < x"
  then show "isPulsing (advance t (on_snapshot (Some d) s))"
    using advance_waits [of t 500 "s\<lparr>viewCount := newCount d\<rparr>"] by (simp add: cb)
next
  assume same: "newCount d = closure_viewCount s \<or> closure_viewCount s = JNum 0"
  then have cb: "on_snapshot (Some d) s = s\<lparr>viewCount := newCount d\<rparr>"
    by (rule on_snapshot_quiet)
  show "isPulsing (on_snapshot (Some d) s) = isPulsing s"
    and "timeouts (on_snapshot (Some d) s) = timeouts s"
    by (simp_all add: cb)
next
  show "isPulsing (on_snapshot None s) = isPulsing s"
    and "timeouts (on_snapshot None s) = timeouts s"
    by (simp_all add: on_snapshot_def)
next
  show "closure_viewCount (on_snapshot snap s) = closure_viewCount s"
    by (cases snap) (simp_all add: on_snapshot_def Let_def)
next
  show "closure_viewCount (resubscribe s) = viewCount s"
    by (simp add: resubscribe_def)
qed

text \<open>The count 5 on display: a snapshot with 6, one with 5, and the initial state.\<close>

lemma ex_ui_fields:
  "viewCount ex_ui = JNum 5" "closure_viewCount ex_ui = JNum 5" "isPulsing ex_ui = False"
  "timeouts ex_ui = []" "clock ex_ui = 0"
  "viewCount initial_ui = JNum 0" "closure_viewCount initial_ui = JNum 0"
  "isPulsing initial_ui = False" "timeouts initial_ui = []"
  by (simp_all add: ex_ui_def initial_ui_def)

lemma ex_newCount: "newCount [(''count'', JNum n)] = JNum n"
  by (simp add: newCount_def js_or_def data_field_def)

text \<open>
  As stated for every notification and the displayed count the claim fails twice. With 5
  on display, a snapshot of a missing document changes the display to 0 and does not
  pulse. And from the initial state, a snapshot with 5 followed by one with 6 before the
  component has re-subscribed changes the display from 5 to 6 and does not pulse: the
  listener still holds 0.
\<close>

theorem pulse_on_change_counterexample:
  "viewCount ex_ui = JNum 5 \<and> closure_viewCount ex_ui = JNum 5
   \<and> viewCount (on_snapshot None ex_ui) = JNum 0
   \<and> \<not> isPulsing (on_snapshot None ex_ui)
   \<and> timeouts (on_snapshot None ex_ui) = []
   \<and> viewCount (on_snapshot (Some [(''count'', JNum 5)]) initial_ui) = JNum 5
   \<and> viewCount (on_snapshot (Some [(''count'', JNum 6)])
        (on_snapshot (Some [(''count'', JNum 5)]) initial_ui)) = JNum 6
   \<and> \<not> isPulsing (on_snapshot (Some [(''count'', JNum 6)])
        (on_snapshot (Some [(''count'', JNum 5)]) initial_ui))
   \<and> timeouts (on_snapshot (Some [(''count'', JNum 6)])
        (on_snapshot (Some [(''count'', JNum 5)]) initial_ui)) = []"
  by (simp add: on_snapshot_def ex_newCount js_strict_neq_def ex_ui_fields)

theorem pulse_on_change_witness:
  "js_strict_neq (newCount [(''count'', JNum 6)]) (closure_viewCount ex_ui)
   \<and> js_strict_neq (closure_viewCount ex_ui) (JNum 0)
   \<and> isPulsing (on_snapshot (Some [(''count'', JNum 6)]) ex_ui)
   \<and> timeouts (on_snapshot (Some [(''count'', JNum 6)]) ex_ui) = [500]
   \<and> isPulsing (advance 499 (on_snapshot (Some [(''count'', JNum 6)]) ex_ui))
   \<and> \<not> isPulsing (advance 500 (on_snapshot (Some [(''count'', JNum 6)]) ex_ui))
   \<and> newCount [(''count'', JNum 5)] = closure_viewCount ex_ui
   \<and> \<not> isPulsing (on_snapshot (Some [(''count'', JNum 5)]) ex_ui)
   \<and> timeouts (on_snapshot (Some [(''count'', JNum 5)]) ex_ui) = []
   \<and> closure_viewCount initial_ui = JNum 0
   \<and> \<not> isPulsing (on_snapshot (Some [(''count'', JNum 6)]) initial_ui)
   \<and> timeouts (on_snapshot (Some [(''count'', JNum 6)]) initial_ui) = []"
proof -
  have changed: "js_strict_neq (newCount [(''count'', JNum 6)]) (closure_viewCount ex_ui)
      \<and> js_strict_neq (closure_viewCount ex_ui) (JNum 0)"
    by (simp add: ex_newCount ex_ui_fields js_strict_neq_def)
  have same: "newCount [(''count'', JNum 5)] = closure_viewCount ex_ui
      \<or> closure_viewCount ex_ui = JNum 0"
    by (simp add: ex_newCount ex_ui_fields)
  have unset: "newCount [(''count'', JNum 6)] = closure_viewCount initial_ui
      \<or> closure_viewCount initial_ui = JNum 0"
    by (simp add: ex_ui_fields)
  note p = pulse_on_change [of "[(''count'', JNum 6)]" ex_ui, THEN conjunct1, rule_format, OF changed]
  have early: "\<forall>x \<in> set (timeouts ex_ui). clock ex_ui + 499 < x"
    by (simp add: ex_ui_fields)
  have "isPulsing (advance 499 (on_snapshot (Some [(''count'', JNum 6)]) ex_ui))"
    using p [THEN conjunct2, THEN conjunct2, THEN conjunct2, rule_format, of 499] early by simp
  moreover note q = pulse_on_change [of "[(''count'', JNum 5)]" ex_ui, THEN conjunct2,
      THEN conjunct1, rule_format, OF same]
  moreover note r = pulse_on_change [of "[(''count'', JNum 6)]" initial_ui, THEN conjunct2,
      THEN conjunct1, rule_format, OF unset]
  ultimately show ?thesis
    using changed p by (simp add: ex_newCount ex_ui_fields)
qed

text \<open>
  Claim C10. A snapshot of a missing counter document sets the displayed count to 0,
  whatever was displayed; so does a snapshot of a document whose \<open>count\<close> field is
  absent or 0.
\<close>

theorem missing_count_shows_zero:
  "viewCount (on_snapshot None s) = JNum 0
   \<and> (map_of d ''count'' = None \<or> map_of d ''count'' = Some (JNum 0) \<longrightarrow>
        viewCount (on_snapshot (Some d) s) = JNum 0)"
proof (intro conjI impI)
  show "viewCount (on_snapshot None s) = JNum 0"
    by (simp add: on_snapshot_def)
next
  assume "map_of d ''count'' = None \<or> map_of d ''count'' = Some (JNum 0)"
  then have "newCount d = JNum 0"
    by (rule newCount_zero)
  then show "viewCount (on_snapshot (Some d) s) = JNum 0"
    by (simp add: on_snapshot_def Let_def)
qed

theorem missing_count_shows_zero_witness:
  "viewCount ex_ui = JNum 5
   \<and> viewCount (on_snapshot None ex_ui) = JNum 0
   \<and> map_of [(''lastUpdate'', JStr ''2024-01-01T00:00:00.000Z'')] ''count'' = None
   \<and> viewCount (on_snapshot (Some [(''lastUpdate'', JStr ''2024-01-01T00:00:00.000Z'')]) ex_ui) = JNum 0
   \<and> map_of [(''count'', JNum 0)] ''count'' = Some (JNum 0)
   \<and> viewCount (on_snapshot (Some [(''count'', JNum 0)]) ex_ui) = JNum 0"
proof -
  have absent: "map_of [(''lastUpdate'', JStr ''2024-01-01T00:00:00.000Z'')] ''count'' = None
      \<or> map_of [(''lastUpdate'', JStr ''2024-01-01T00:00:00.000Z'')] ''count'' = Some (JNum 0)"
    by simp
  have zero: "map_of [(''count'', JNum 0)] ''count'' = None
      \<or> map_of [(''count'', JNum 0)] ''count'' = Some (JNum 0)"
    by simp
  note a = missing_count_shows_zero [of ex_ui, THEN conjunct1]
  note b = missing_count_shows_zero [THEN conjunct2, rule_format, OF absent, of ex_ui]
  note c = missing_count_shows_zero [THEN conjunct2, rule_format, OF zero, of ex_ui]
  from a b c show ?thesis
    by (simp add: ex_ui_fields)
qed

end
